theory Spec2Isabelle
  imports
    Complex_Main
    "HOL-Library.AList"
    "HOL-Library.Char_ord"
    "HOL-Library.List_Lexorder"
    "HOL-Library.Multiset"
begin

section \<open>JavaScript strings\<close>

text \<open>
  Strings of the program are lists of characters. The model covers ASCII text: the
  whitespace class of \<^verbatim>\<open>\s\<close> and \<^verbatim>\<open>trim\<close> is taken to be space, tab, line feed,
  vertical tab, form feed and carriage return, and \<^verbatim>\<open>toLowerCase\<close> maps
  \<^verbatim>\<open>A-Z\<close> to \<^verbatim>\<open>a-z\<close> and leaves every other character alone.
\<close>

definition code :: "char \<Rightarrow> nat" where
  "code c = of_char c"

definition isSpace :: "char \<Rightarrow> bool" where
  "isSpace c \<longleftrightarrow> code c = 32 \<or> (9 \<le> code c \<and> code c \<le> 13)"

definition isDigit :: "char \<Rightarrow> bool" where
  "isDigit c \<longleftrightarrow> 48 \<le> code c \<and> code c \<le> 57"

definition isUpper :: "char \<Rightarrow> bool" where
  "isUpper c \<longleftrightarrow> 65 \<le> code c \<and> code c \<le> 90"

definition isLower :: "char \<Rightarrow> bool" where
  "isLower c \<longleftrightarrow> 97 \<le> code c \<and> code c \<le> 122"

text \<open>The class \<^verbatim>\<open>\w\<close> of regular expressions, which decides \<^verbatim>\<open>\b\<close>.\<close>

definition isWord :: "char \<Rightarrow> bool" where
  "isWord c \<longleftrightarrow> isUpper c \<or> isLower c \<or> isDigit c \<or> c = CHR ''_''"

definition lowerChar :: "char \<Rightarrow> char" where
  "lowerChar c = (if isUpper c then char_of (code c + 32) else c)"

definition toLowerCase :: "string \<Rightarrow> string" where
  "toLowerCase s = map lowerChar s"

fun startsWith :: "string \<Rightarrow> string \<Rightarrow> bool" where
  "startsWith s [] = True"
| "startsWith [] (p # ps) = False"
| "startsWith (c # cs) (p # ps) = (c = p \<and> startsWith cs ps)"

text \<open>\<^verbatim>\<open>s.indexOf(t)\<close>; \<open>None\<close> stands for the result -1.\<close>

fun indexOf :: "string \<Rightarrow> string \<Rightarrow> nat option" where
  "indexOf [] t = (if t = [] then Some 0 else None)"
| "indexOf (c # cs) t =
     (if startsWith (c # cs) t then Some 0
      else (case indexOf cs t of None \<Rightarrow> None | Some i \<Rightarrow> Some (Suc i)))"

definition includesStr :: "string \<Rightarrow> string \<Rightarrow> bool" where
  "includesStr s t \<longleftrightarrow> indexOf s t \<noteq> None"

text \<open>\<^verbatim>\<open>s.split(t)[0]\<close> for a non-empty separator: the text before its first occurrence.\<close>

definition splitHead :: "string \<Rightarrow> string \<Rightarrow> string" where
  "splitHead s t = (case indexOf s t of None \<Rightarrow> s | Some i \<Rightarrow> take i s)"

definition trim :: "string \<Rightarrow> string" where
  "trim s = rev (dropWhile isSpace (rev (dropWhile isSpace s)))"

text \<open>\<^verbatim>\<open>s.replace(/,$/, "")\<close>: one comma at the very end is removed.\<close>

definition stripTrailingComma :: "string \<Rightarrow> string" where
  "stripTrailingComma s = (if s \<noteq> [] \<and> last s = CHR '','' then butlast s else s)"

text \<open>
  \<^verbatim>\<open>s.split(/[\s,]+/)[0]\<close>: the text before the first run of separators, which is
  empty when the string is empty or starts with a separator.
\<close>

definition firstWord :: "string \<Rightarrow> string" where
  "firstWord s = takeWhile (\<lambda>c. \<not> (isSpace c \<or> c = CHR '','')) s"

text \<open>\<^verbatim>\<open>x || d\<close> on an optional string: \<^verbatim>\<open>undefined\<close> and the empty string are falsy.\<close>

definition orElse :: "string option \<Rightarrow> string \<Rightarrow> string" where
  "orElse x d = (case x of None \<Rightarrow> d | Some s \<Rightarrow> if s = [] then d else s)"

text \<open>\<^verbatim>\<open>xs.slice(-k)\<close> for \<open>k > 0\<close>: the last \<open>k\<close> elements, all of them when there are fewer.\<close>

definition sliceLast :: "nat \<Rightarrow> 'a list \<Rightarrow> 'a list" where
  "sliceLast k xs = drop (length xs - k) xs"

section \<open>JavaScript numbers\<close>

text \<open>
  A number is NaN, an infinity or a finite value, and a finite value is a double, held as
  the real it stands for (the sign of a zero is not kept). A numeric literal denotes the
  double that is nearest to its decimal value, ties going to the even significand:
  \<open>binade\<close> is the exponent of the value, not below that of the smallest normal double
  and not above that of the largest, \<open>ulp\<close> the distance of the doubles there, and
  \<open>roundDouble\<close> the nearest multiple of it, or an infinity from 2^1024 on. The sums
  that the program forms of such values are taken exactly: the rounding of an addition
  or a division is not modelled.
\<close>

datatype jsnum = NaN | PosInf | NegInf | Fin real

primrec binadeFrom :: "nat \<Rightarrow> real \<Rightarrow> int" where
  "binadeFrom 0 a = - 1022"
| "binadeFrom (Suc n) a =
     (if power_int 2 (int (Suc n) - 1022) \<le> a then int (Suc n) - 1022 else binadeFrom n a)"

definition binade :: "real \<Rightarrow> int" where
  "binade v = binadeFrom 2045 \<bar>v\<bar>"

definition ulp :: "real \<Rightarrow> real" where
  "ulp v = power_int 2 (binade v - 52)"

definition nearestEven :: "real \<Rightarrow> int" where
  "nearestEven x =
     (let f = \<lfloor>x\<rfloor>
      in if x - of_int f < 1 / 2 then f
         else if 1 / 2 < x - of_int f then f + 1
         else if even f then f
         else f + 1)"

definition roundDouble :: "real \<Rightarrow> jsnum" where
  "roundDouble v =
     (let q = of_int (nearestEven (v / ulp v)) * ulp v
      in if 2 ^ 1024 \<le> \<bar>q\<bar> then (if 0 < v then PosInf else NegInf) else Fin q)"

definition negate :: "jsnum \<Rightarrow> jsnum" where
  "negate x = (case x of NaN \<Rightarrow> NaN | PosInf \<Rightarrow> NegInf | NegInf \<Rightarrow> PosInf | Fin v \<Rightarrow> Fin (- v))"

definition digitsVal :: "string \<Rightarrow> nat" where
  "digitsVal s = foldl (\<lambda>n c. 10 * n + (code c - 48)) 0 s"

definition pow10 :: "int \<Rightarrow> real" where
  "pow10 e = (if 0 \<le> e then 10 ^ nat e else 1 / 10 ^ nat (- e))"

text \<open>
  The optional exponent part of a decimal literal: the exponent and the text after it.
  An \<^verbatim>\<open>e\<close> that no digit follows is not part of the literal.
\<close>

definition scanExponent :: "string \<Rightarrow> int \<times> string" where
  "scanExponent s =
     (case s of
        [] \<Rightarrow> (0, s)
      | e # r \<Rightarrow>
          if e = CHR ''e'' \<or> e = CHR ''E'' then
            (let sg = (r \<noteq> [] \<and> (hd r = CHR ''+'' \<or> hd r = CHR ''-''));
                 ds = (if sg then tl r else r)
             in if takeWhile isDigit ds = [] then (0, s)
                else ((if sg \<and> hd r = CHR ''-'' then - int (digitsVal (takeWhile isDigit ds))
                       else int (digitsVal (takeWhile isDigit ds))),
                      dropWhile isDigit ds))
          else (0, s))"

text \<open>The longest prefix that is an unsigned decimal literal, and the text after it.\<close>

definition scanUnsigned :: "string \<Rightarrow> jsnum \<times> string" where
  "scanUnsigned s =
     (if startsWith s ''Infinity'' then (PosInf, drop 8 s)
      else
        (let ip = takeWhile isDigit s;
             r1 = dropWhile isDigit s;
             dot = (r1 \<noteq> [] \<and> hd r1 = CHR ''.'');
             fp = (if dot then takeWhile isDigit (tl r1) else []);
             r2 = (if dot then dropWhile isDigit (tl r1) else r1)
         in if ip = [] \<and> fp = [] then (NaN, s)
            else
              (let (e, r3) = scanExponent r2
               in (roundDouble
                    ((real (digitsVal ip) + real (digitsVal fp) / 10 ^ length fp) * pow10 e),
                   r3))))"

definition scanDecimal :: "string \<Rightarrow> jsnum \<times> string" where
  "scanDecimal s =
     (case s of
        [] \<Rightarrow> (NaN, s)
      | c # r \<Rightarrow>
          if c = CHR ''-'' then (let (v, r') = scanUnsigned r in (negate v, r'))
          else if c = CHR ''+'' then scanUnsigned r
          else scanUnsigned s)"

text \<open>\<^verbatim>\<open>Number.parseFloat\<close>: leading whitespace is skipped, trailing text is ignored.\<close>

definition parseFloat :: "string \<Rightarrow> jsnum" where
  "parseFloat s = fst (scanDecimal (dropWhile isSpace s))"

text \<open>
  \<^verbatim>\<open>parseCurrency\<close> on a string: the characters \<^verbatim>\<open>$\<close>, \<^verbatim>\<open>,\<close> and whitespace are
  removed, and everything that does not parse to a finite number is 0.
\<close>

definition parseCurrency :: "string \<Rightarrow> real" where
  "parseCurrency v =
     (if v = [] then 0
      else (case parseFloat (filter (\<lambda>c. \<not> (c = CHR ''$'' \<or> c = CHR '','' \<or> isSpace c)) v) of
              Fin num \<Rightarrow> num
            | _ \<Rightarrow> 0))"

definition calculateAverage :: "real list \<Rightarrow> real" where
  "calculateAverage arr = (if length arr = 0 then 0 else foldl (\<lambda>acc v. acc + v) 0 arr / real (length arr))"

text \<open>Comparison of a number with a finite bound: false for NaN, as in JavaScript.\<close>

definition gt :: "jsnum \<Rightarrow> real \<Rightarrow> bool" where
  "gt x b = (case x of NaN \<Rightarrow> False | PosInf \<Rightarrow> True | NegInf \<Rightarrow> False | Fin v \<Rightarrow> b < v)"

text \<open>
  \<^verbatim>\<open>Array.prototype.sort(cmp)\<close> is a stable sort; an element stays before the ones it
  does not compare greater than. It is modelled by insertion from the right.
\<close>

fun insortCmp :: "('a \<Rightarrow> 'a \<Rightarrow> real) \<Rightarrow> 'a \<Rightarrow> 'a list \<Rightarrow> 'a list" where
  "insortCmp cmp x [] = [x]"
| "insortCmp cmp x (y # ys) = (if cmp x y \<le> 0 then x # y # ys else y # insortCmp cmp x ys)"

definition jsSort :: "('a \<Rightarrow> 'a \<Rightarrow> real) \<Rightarrow> 'a list \<Rightarrow> 'a list" where
  "jsSort cmp xs = foldr (insortCmp cmp) xs []"

section \<open>The data model\<close>

text \<open>The interface \<^verbatim>\<open>AccountData\<close>; an optional field is an \<open>option\<close>.\<close>

record AccountData =
  accountID :: jsnum
  accountName :: string
  address :: string
  totalSales :: string
  dateCreated :: string
  dateLastQuoted :: string
  primaryRepName :: string
  brand :: "string option"
  lifecycleStage :: "string option"
  analyticsSource :: "string option"
  latestSource :: "string option"
  sourceData1 :: "string option"
  sourceData2 :: "string option"
  firstTouchCampaign :: "string option"
  lastTouchCampaign :: "string option"
  firstURL :: "string option"
  lastURL :: "string option"
  numberOfVisits :: "string option"
  numberOfPageViews :: "string option"

text \<open>The value types of the rollups of \<^verbatim>\<open>ProcessedData\<close>.\<close>

record bucket =
  sales :: real
  accounts :: nat

record monthCount =
  accounts_mc :: nat
  revenue_mc :: real

record trend =
  month :: string
  accounts_t :: nat
  revenue_t :: real

record leadsRevenue =
  leads :: nat
  revenue :: real

record sourcePerf = leadsRevenue +
  conversionRate :: real
  avgDealSize :: real

record pagePerf = sourcePerf +
  sqlCount :: nat

text \<open>The labels of \<^verbatim>\<open>getLeadTemperature\<close> and \<^verbatim>\<open>getLeadRiskLevel\<close>, without their pictograms.\<close>

datatype temperature = Hot | Warm | Cool | Cold

datatype risk = HighRisk | MediumRisk | LowRisk | UnknownRisk

record healthEntry =
  accountId_h :: jsnum
  accountName_h :: string
  healthScore :: int
  temperature_h :: temperature
  riskLevel :: risk

text \<open>
  \<^verbatim>\<open>ProcessedData\<close>. An object used as a dictionary is the list of its own
  properties, in the order in which JavaScript enumerates them. A count of
  \<^verbatim>\<open>lifecycleStageDistribution\<close> can be NaN, so its values are numbers. The field
  \<^verbatim>\<open>timeBasedInsights\<close>, which is computed from the clock and the locale alone, is
  left out.
\<close>

record ProcessedData =
  totalAccounts :: nat
  totalRevenue :: real
  averageDealSize :: real
  salesByRep :: "(string \<times> bucket) list"
  salesDistribution :: "(string \<times> nat) list"
  monthlyTrends :: "trend list"
  topStates :: "(string \<times> bucket) list"
  recentlyQuoted :: nat
  salesByBrand :: "(string \<times> bucket) list"
  topPerformingAccounts :: "AccountData list"
  leastPerformingAccounts :: "AccountData list"
  allAccounts :: "AccountData list"
  lifecycleStageDistribution :: "(string \<times> jsnum) list"
  trafficSourcePerformance :: "(string \<times> sourcePerf) list"
  geographicDistribution :: "(string \<times> leadsRevenue) list"
  leadHealthScores :: "healthEntry list"
  campaignPerformance :: "(string \<times> leadsRevenue) list"
  landingPagePerformance :: "(string \<times> pagePerf) list"

text \<open>
  What the program asks of the JavaScript runtime about dates, URLs and collation.
  \<^item> \<open>monthKey s\<close>: \<^verbatim>\<open>new Date(s)\<close> as year and month \<^verbatim>\<open>YYYY-MM\<close>, \<open>None\<close> for an
    invalid date;
  \<^item> \<open>monthLabel k\<close>: the \<^verbatim>\<open>en-US\<close> short label of the first day of month \<open>k\<close>;
  \<^item> \<open>localeCompare\<close>: the collation of month keys;
  \<^item> \<open>quotedLately s\<close>: \<^verbatim>\<open>new Date(s)\<close> is valid and later than 90 days before now;
  \<^item> \<open>daysSince s\<close>: the days from \<^verbatim>\<open>new Date(s)\<close> to now, NaN for an invalid date;
  \<^item> \<open>pathname u\<close>: \<^verbatim>\<open>new URL(u).pathname\<close>, \<open>None\<close> when the constructor throws.
  The clock is read once for a run.
\<close>

record platform =
  monthKey :: "string \<Rightarrow> string option"
  monthLabel :: "string \<Rightarrow> string"
  localeCompare :: "string \<Rightarrow> string \<Rightarrow> real"
  quotedLately :: "string \<Rightarrow> bool"
  daysSince :: "string \<Rightarrow> jsnum"
  pathname :: "string \<Rightarrow> string option"

section \<open>Brand extraction\<close>

definition KNOWN_BRANDS_HS :: "string list" where
  "KNOWN_BRANDS_HS =
     [''Hospeco'', ''Indoff'', ''Triad'', ''Impact'', ''Legacy'', ''Acme'', ''Supply'',
      ''Corp'', ''LLC'', ''Inc'']"

definition GENERIC_SUFFIXES :: "string list" where
  "GENERIC_SUFFIXES = [''LLC'', ''Inc'', ''Corp'', ''Group'', ''Brands'']"

text \<open>
  The loop over the known brands: the first brand found in the lower-cased name decides,
  and \<open>None\<close> says that no brand was found.
\<close>

fun brandLoop :: "string \<Rightarrow> string \<Rightarrow> string list \<Rightarrow> string option" where
  "brandLoop nm lowerCaseName [] = None"
| "brandLoop nm lowerCaseName (b # bs) =
     (case indexOf lowerCaseName (toLowerCase b) of
        None \<Rightarrow> brandLoop nm lowerCaseName bs
      | Some i \<Rightarrow>
          (if b \<in> set GENERIC_SUFFIXES \<and> trim (splitHead lowerCaseName (toLowerCase b)) \<noteq> [] then
             (let potentialBrand = trim (stripTrailingComma (trim (take i nm)))
              in if potentialBrand \<noteq> [] then Some potentialBrand else Some b)
           else Some b))"

definition extractBrandFromAccountNameHS :: "string \<Rightarrow> string" where
  "extractBrandFromAccountNameHS nm =
     (case brandLoop nm (toLowerCase nm) KNOWN_BRANDS_HS of
        Some b \<Rightarrow> b
      | None \<Rightarrow>
          (let w = firstWord nm
           in if length w > 2 \<and> w \<notin> set [''The'', ''A'', ''An''] then w else ''Other''))"

section \<open>Helpers of the aggregation\<close>

text \<open>
  The state of an address, as the regular expression
  \<^verbatim>\<open>/\b([A-Z]{2})\b(?=,?\s*\d{5}(-\d{4})?$)/\<close> finds it. \<open>zipAhead\<close> is the lookahead:
  an optional comma, whitespace, five digits, an optional hyphen with four digits, and
  the end of the text.
\<close>

definition zipAhead :: "string \<Rightarrow> bool" where
  "zipAhead s =
     (let s1 = (if s \<noteq> [] \<and> hd s = CHR '','' then tl s else s);
          s2 = dropWhile isSpace s1;
          rest = drop 5 s2
      in length (take 5 s2) = 5 \<and> (\<forall>c \<in> set (take 5 s2). isDigit c)
         \<and> (rest = []
              \<or> (length rest = 5 \<and> hd rest = CHR ''-'' \<and> (\<forall>c \<in> set (tl rest). isDigit c))))"

text \<open>
  The scan for the leftmost match; \<open>prev\<close> says whether the character before the
  position is a word character.
\<close>

fun stateScan :: "bool \<Rightarrow> string \<Rightarrow> string option" where
  "stateScan prev (a # b # rest) =
     (if \<not> prev \<and> isUpper a \<and> isUpper b \<and> (rest = [] \<or> \<not> isWord (hd rest)) \<and> zipAhead rest
      then Some [a, b]
      else stateScan (isWord a) (b # rest))"
| "stateScan prev rest = None"

definition stateMatch :: "string \<Rightarrow> string option" where
  "stateMatch addr = stateScan False addr"

definition normalizeTrafficSource :: "string \<Rightarrow> string" where
  "normalizeTrafficSource source =
     (if source = [] \<or> source = ''Unknown'' then ''Unknown''
      else
        (let normalized = toLowerCase source
         in if includesStr normalized ''organic'' \<or> includesStr normalized ''seo''
              then ''Organic Search''
            else if includesStr normalized ''paid'' \<or> includesStr normalized ''cpc''
                    \<or> includesStr normalized ''adwords''
              then ''Paid Search''
            else if includesStr normalized ''social'' \<or> includesStr normalized ''facebook''
                    \<or> includesStr normalized ''linkedin''
              then ''Social Media''
            else if includesStr normalized ''email'' then ''Email Marketing''
            else if includesStr normalized ''direct'' then ''Direct Traffic''
            else if includesStr normalized ''referral'' then ''Referral''
            else if includesStr normalized ''offline'' then ''Offline''
            else source))"

text \<open>
  \<^verbatim>\<open>Number(s)\<close> on a string: the trimmed text must be a numeric literal as a whole,
  decimal or with one of the prefixes \<^verbatim>\<open>0x\<close>, \<^verbatim>\<open>0o\<close>, \<^verbatim>\<open>0b\<close>; the empty text is 0.
\<close>

definition digitOf :: "char \<Rightarrow> nat option" where
  "digitOf c =
     (if isDigit c then Some (code c - 48)
      else if 97 \<le> code c \<and> code c \<le> 102 then Some (code c - 87)
      else if 65 \<le> code c \<and> code c \<le> 70 then Some (code c - 55)
      else None)"

definition radixLiteral :: "nat \<Rightarrow> string \<Rightarrow> jsnum" where
  "radixLiteral r ds =
     (if ds \<noteq> [] \<and> (\<forall>c \<in> set ds. case digitOf c of None \<Rightarrow> False | Some d \<Rightarrow> d < r)
      then roundDouble (real (foldl (\<lambda>n c. r * n + (case digitOf c of None \<Rightarrow> 0 | Some d \<Rightarrow> d)) 0 ds))
      else NaN)"

definition toNumber :: "string \<Rightarrow> jsnum" where
  "toNumber s =
     (let t = trim s
      in if t = [] then Fin 0
         else if startsWith t ''0x'' \<or> startsWith t ''0X'' then radixLiteral 16 (drop 2 t)
         else if startsWith t ''0o'' \<or> startsWith t ''0O'' then radixLiteral 8 (drop 2 t)
         else if startsWith t ''0b'' \<or> startsWith t ''0B'' then radixLiteral 2 (drop 2 t)
         else (case scanDecimal t of (v, r) \<Rightarrow> if r = [] then v else NaN))"

definition calculateLeadHealthScore :: "AccountData \<Rightarrow> int" where
  "calculateLeadHealthScore account =
     (let score0 = 50;
          source = orElse (analyticsSource account) ''Unknown'';
          score1 = (if includesStr source ''Organic Search'' then score0 + 15
                    else if includesStr source ''Paid Search'' then score0 + 10
                    else if includesStr source ''Referral'' then score0 + 20
                    else score0);
          visits = (case numberOfVisits account of
                      None \<Rightarrow> Fin 0
                    | Some s \<Rightarrow> if s = [] then Fin 0 else toNumber s);
          score2 = (if gt visits 5 then score1 + 15
                    else if gt visits 2 then score1 + 10
                    else score1);
          stage = (case lifecycleStage account of None \<Rightarrow> [] | Some s \<Rightarrow> toLowerCase s);
          score3 = (if stage = ''salesqualifiedlead'' then score2 + 25
                    else if stage = ''marketingqualifiedlead'' then score2 + 15
                    else if stage = ''customer'' then score2 + 30
                    else score2)
      in max 0 (min 100 score3))"

definition getLeadTemperature :: "int \<Rightarrow> temperature" where
  "getLeadTemperature h =
     (if h \<ge> 80 then Hot else if h \<ge> 60 then Warm else if h \<ge> 40 then Cool else Cold)"

definition getLeadRiskLevel :: "platform \<Rightarrow> AccountData \<Rightarrow> risk" where
  "getLeadRiskLevel P account =
     (let created = dateCreated account
      in if created = [] \<or> created = ''N/A'' then UnknownRisk
         else
           (let daysSinceCreated = daysSince P created
            in if gt daysSinceCreated 60 then HighRisk
               else if gt daysSinceCreated 30 then MediumRisk
               else LowRisk))"

text \<open>
  The rollups are objects created by \<^verbatim>\<open>{}\<close>. Such an object inherits the members of
  \<^verbatim>\<open>Object.prototype\<close>, which a lookup \<^verbatim>\<open>m[k]\<close> finds when \<open>m\<close> has no own
  property \<open>k\<close>: eleven functions and the accessor \<^verbatim>\<open>__proto__\<close>, all of them
  truthy. The prototype is taken to be the one of the language, with nothing added to it
  and nothing frozen.
\<close>

definition inheritedKeys :: "string list" where
  "inheritedKeys =
     [''constructor'', ''__defineGetter__'', ''__defineSetter__'', ''hasOwnProperty'',
      ''__lookupGetter__'', ''__lookupSetter__'', ''isPrototypeOf'', ''propertyIsEnumerable'',
      ''toString'', ''valueOf'', ''__proto__'', ''toLocaleString'']"

text \<open>
  The own properties of an object are enumerated with the array indices first, in
  ascending order, and the other keys after them in the order of their creation. An array
  index is the decimal text, without a leading zero, of an integer below 2^32 - 1.
\<close>

definition isArrayIndex :: "string \<Rightarrow> bool" where
  "isArrayIndex k \<longleftrightarrow>
     k \<noteq> [] \<and> (\<forall>c \<in> set k. isDigit c) \<and> (k = ''0'' \<or> hd k \<noteq> CHR ''0'')
     \<and> digitsVal k < 2 ^ 32 - 1"

fun insertIndex :: "string \<Rightarrow> 'v \<Rightarrow> (string \<times> 'v) list \<Rightarrow> (string \<times> 'v) list" where
  "insertIndex k v [] = [(k, v)]"
| "insertIndex k v (p # ps) =
     (if isArrayIndex (fst p) \<and> digitsVal (fst p) < digitsVal k then p # insertIndex k v ps
      else (k, v) # p # ps)"

text \<open>
  \<^verbatim>\<open>m[k] = v\<close> on own properties: the value of a key that is there is replaced, a
  new key takes its place in the enumeration.
\<close>

definition setOwn :: "string \<Rightarrow> 'v \<Rightarrow> (string \<times> 'v) list \<Rightarrow> (string \<times> 'v) list" where
  "setOwn k v m =
     (if map_of m k = None \<and> isArrayIndex k then insertIndex k v m else AList.update k v m)"

text \<open>
  The updates of the rollups whose entries are objects: \<^verbatim>\<open>if (!m[k]) m[k] = {...}\<close>,
  then the fields of \<^verbatim>\<open>m[k]\<close> are added to. For an inherited key the test finds the
  member of the prototype, no entry is created, and the additions go to properties of
  that member: the rollup is left as it is. (The properties that \<^verbatim>\<open>__proto__\<close> puts
  on the prototype this way hold NaN, which is falsy, so that they are not found by the
  test for any other key.)
\<close>

definition addSale :: "string \<Rightarrow> real \<Rightarrow> (string \<times> bucket) list \<Rightarrow> (string \<times> bucket) list" where
  "addSale k v m =
     (if k \<in> set inheritedKeys then m
      else
        (let b = (case map_of m k of None \<Rightarrow> \<lparr>sales = 0, accounts = 0\<rparr> | Some b \<Rightarrow> b)
         in setOwn k (b\<lparr>sales := sales b + v, accounts := accounts b + 1\<rparr>) m))"

definition addLead ::
  "'a leadsRevenue_scheme \<Rightarrow> string \<Rightarrow> real \<Rightarrow> (string \<times> 'a leadsRevenue_scheme) list
     \<Rightarrow> (string \<times> 'a leadsRevenue_scheme) list" where
  "addLead fresh k v m =
     (if k \<in> set inheritedKeys then m
      else
        (let b = (case map_of m k of None \<Rightarrow> fresh | Some b \<Rightarrow> b)
         in setOwn k (b\<lparr>leads := leads b + 1, revenue := revenue b + v\<rparr>) m))"

text \<open>
  \<^verbatim>\<open>m[k]++\<close> on one of the six bands of \<^verbatim>\<open>salesDistribution\<close>, which are own
  properties from the start and no array indices.
\<close>

definition addCount :: "string \<Rightarrow> (string \<times> nat) list \<Rightarrow> (string \<times> nat) list" where
  "addCount k m = AList.update k ((case map_of m k of None \<Rightarrow> 0 | Some n \<Rightarrow> n) + 1) m"

text \<open>
  The count of a lifecycle stage: \<^verbatim>\<open>if (!m[k]) m[k] = 0\<close>, then \<^verbatim>\<open>m[k]++\<close>. An own
  value that is 0 or NaN is set to 0 and becomes 1. For an inherited key without an own
  value the test finds the member of the prototype, and the increment of that member is
  NaN: it is stored as an own value, except under \<^verbatim>\<open>__proto__\<close>, whose setter drops
  a number.
\<close>

definition countStage :: "string \<Rightarrow> (string \<times> jsnum) list \<Rightarrow> (string \<times> jsnum) list" where
  "countStage k m =
     (if k = ''__proto__'' then m
      else
        (case map_of m k of
           None \<Rightarrow> setOwn k (if k \<in> set inheritedKeys then NaN else Fin 1) m
         | Some x \<Rightarrow>
             setOwn k
               (case x of
                  Fin n \<Rightarrow> Fin (n + 1)
                | NaN \<Rightarrow> Fin 1
                | PosInf \<Rightarrow> PosInf
                | NegInf \<Rightarrow> NegInf)
               m))"

text \<open>The band of \<^verbatim>\<open>salesDistribution\<close> that a sales value is counted in.\<close>

definition salesBand :: "real \<Rightarrow> string" where
  "salesBand v =
     (if v < 0 then ''Negative''
      else if v \<le> 1000 then ''$0-$1K''
      else if v \<le> 5000 then ''$1K-$5K''
      else if v \<le> 10000 then ''$5K-$10K''
      else if v \<le> 25000 then ''$10K-$25K''
      else ''$25K+'')"

section \<open>The aggregation: processAccountDataInternal\<close>

text \<open>The object \<^verbatim>\<open>processed\<close> as it is created, before any row is read.\<close>

definition initialProcessed :: "AccountData list \<Rightarrow> ProcessedData" where
  "initialProcessed data =
     \<lparr>totalAccounts = length data,
      totalRevenue = 0,
      averageDealSize = 0,
      salesByRep = [],
      salesDistribution =
        [(''Negative'', 0), (''$0-$1K'', 0), (''$1K-$5K'', 0), (''$5K-$10K'', 0),
         (''$10K-$25K'', 0), (''$25K+'', 0)],
      monthlyTrends = [],
      topStates = [],
      recentlyQuoted = 0,
      salesByBrand = [],
      topPerformingAccounts = [],
      leastPerformingAccounts = [],
      allAccounts = data,
      lifecycleStageDistribution = [],
      trafficSourcePerformance = [],
      geographicDistribution = [],
      leadHealthScores = [],
      campaignPerformance = [],
      landingPagePerformance = []\<rparr>"

text \<open>
  One row of the first loop. The state is the object \<^verbatim>\<open>processed\<close> with the locals
  \<^verbatim>\<open>totalSalesValue\<close> and \<^verbatim>\<open>validSales\<close>. The parsed value is finite, so of the
  guard \<^verbatim>\<open>!isFinite(sales) || isNaN(sales) || Math.abs(sales) > 1e12\<close> the last
  test decides; a row it rejects leaves the state as it is.
\<close>

fun mainRow ::
  "platform \<Rightarrow> ProcessedData \<times> real \<times> real list \<Rightarrow> AccountData
     \<Rightarrow> ProcessedData \<times> real \<times> real list" where
  "mainRow P (processed, totalSalesValue, validSales) row =
     (let v = parseCurrency (totalSales row)
      in if \<bar>v\<bar> > 10 ^ 12 then (processed, totalSalesValue, validSales)
         else
           (let rep = (if primaryRepName row = [] then ''N/A'' else primaryRepName row);
                br = extractBrandFromAccountNameHS (accountName row);
                stage = orElse (lifecycleStage row) ''unknown'';
                addr = address row;
                quoted = (dateLastQuoted row \<noteq> [] \<and> dateLastQuoted row \<noteq> ''N/A''
                          \<and> quotedLately P (dateLastQuoted row))
            in (processed
                  \<lparr>lifecycleStageDistribution :=
                     countStage stage (lifecycleStageDistribution processed),
                   salesByRep := addSale rep v (salesByRep processed),
                   salesByBrand := addSale br v (salesByBrand processed),
                   salesDistribution := addCount (salesBand v) (salesDistribution processed),
                   topStates :=
                     (case stateMatch addr of
                        None \<Rightarrow> topStates processed
                      | Some st \<Rightarrow> addSale st v (topStates processed)),
                   recentlyQuoted :=
                     (if quoted then recentlyQuoted processed + 1 else recentlyQuoted processed)\<rparr>,
                totalSalesValue + v,
                (if v > 0 \<and> \<bar>v\<bar> < 10 ^ 12 then validSales @ [v] else validSales))))"

text \<open>The second loop: accounts and revenue per month of creation.\<close>

definition monthRow ::
  "platform \<Rightarrow> (string \<times> monthCount) list \<Rightarrow> AccountData \<Rightarrow> (string \<times> monthCount) list" where
  "monthRow P monthCounts row =
     (let dateStr = dateCreated row
      in if dateStr \<noteq> [] \<and> dateStr \<noteq> ''N/A'' then
           (case monthKey P dateStr of
              None \<Rightarrow> monthCounts
            | Some k \<Rightarrow>
                (if k \<in> set inheritedKeys then monthCounts
                 else
                   (let c = (case map_of monthCounts k of
                               None \<Rightarrow> \<lparr>accounts_mc = 0, revenue_mc = 0\<rparr>
                             | Some c \<Rightarrow> c)
                    in setOwn k
                         (c\<lparr>accounts_mc := accounts_mc c + 1,
                            revenue_mc := revenue_mc c + parseCurrency (totalSales row)\<rparr>)
                         monthCounts)))
         else monthCounts)"

definition monthlyTrendsOf :: "platform \<Rightarrow> AccountData list \<Rightarrow> trend list" where
  "monthlyTrendsOf P data =
     map (\<lambda>(m, trendData).
            \<lparr>month = monthLabel P m, accounts_t = accounts_mc trendData,
             revenue_t = revenue_mc trendData\<rparr>)
       (sliceLast 12
          (jsSort (\<lambda>a b. localeCompare P (fst a) (fst b)) (foldl (monthRow P) [] data)))"

text \<open>The ranking: a copy of the data is sorted by descending sales value.\<close>

definition sortedAccountsOf :: "AccountData list \<Rightarrow> AccountData list" where
  "sortedAccountsOf data =
     jsSort (\<lambda>a b. parseCurrency (totalSales b) - parseCurrency (totalSales a)) data"

definition leastPerformingOf :: "AccountData list \<Rightarrow> AccountData list" where
  "leastPerformingOf sortedAccounts =
     (let least = rev (sliceLast 5
                    (filter (\<lambda>acc. parseCurrency (totalSales acc) < 0) sortedAccounts))
      in if length least < 5 \<and> length sortedAccounts > 0 then
           (let lowestPositive =
                  rev (sliceLast (5 - length least)
                    (filter (\<lambda>acc. parseCurrency (totalSales acc) \<ge> 0) sortedAccounts))
            in least @ lowestPositive)
         else least)"

text \<open>Traffic sources: the loop over the rows, then the rates of every source.\<close>

definition sourceOf :: "AccountData \<Rightarrow> string" where
  "sourceOf account =
     normalizeTrafficSource
       (orElse (analyticsSource account) (orElse (latestSource account) ''Unknown''))"

definition isSQL :: "AccountData \<Rightarrow> bool" where
  "isSQL account =
     (case lifecycleStage account of
        None \<Rightarrow> False
      | Some s \<Rightarrow> toLowerCase s = ''salesqualifiedlead'')"

definition trafficRow ::
  "(string \<times> sourcePerf) list \<Rightarrow> AccountData \<Rightarrow> (string \<times> sourcePerf) list" where
  "trafficRow m account =
     addLead \<lparr>leads = 0, revenue = 0, conversionRate = 0, avgDealSize = 0\<rparr>
       (sourceOf account) (parseCurrency (totalSales account)) m"

definition trafficRates :: "AccountData list \<Rightarrow> string \<times> sourcePerf \<Rightarrow> string \<times> sourcePerf" where
  "trafficRates data = (\<lambda>(source, sourceData).
     (let sourceAccounts = filter (\<lambda>account. sourceOf account = source) data;
          sqlCnt = length (filter isSQL sourceAccounts)
      in (source,
          sourceData
            \<lparr>avgDealSize :=
               (if leads sourceData > 0 then revenue sourceData / real (leads sourceData) else 0),
             conversionRate :=
               (if length sourceAccounts > 0
                then real sqlCnt / real (length sourceAccounts) * 100 else 0)\<rparr>)))"

definition trafficSourcePerformanceOf :: "AccountData list \<Rightarrow> (string \<times> sourcePerf) list" where
  "trafficSourcePerformanceOf data = map (trafficRates data) (foldl trafficRow [] data)"

text \<open>Geography: every row is counted, under its state or under \<^verbatim>\<open>Unknown\<close>.\<close>

definition geoRow ::
  "(string \<times> leadsRevenue) list \<Rightarrow> AccountData \<Rightarrow> (string \<times> leadsRevenue) list" where
  "geoRow m account =
     (let addr = (if address account = [] then ''Unknown'' else address account);
          st = (case stateMatch addr of None \<Rightarrow> ''Unknown'' | Some st \<Rightarrow> st)
      in addLead \<lparr>leads = 0, revenue = 0\<rparr> st (parseCurrency (totalSales account)) m)"

definition leadHealthScoresOf :: "platform \<Rightarrow> AccountData list \<Rightarrow> healthEntry list" where
  "leadHealthScoresOf P data =
     jsSort (\<lambda>a b. real_of_int (healthScore b - healthScore a))
       (map (\<lambda>account.
               (let h = calculateLeadHealthScore account
                in \<lparr>accountId_h = accountID account, accountName_h = accountName account,
                    healthScore = h, temperature_h = getLeadTemperature h,
                    riskLevel = getLeadRiskLevel P account\<rparr>))
          data)"

definition campaignRow ::
  "(string \<times> leadsRevenue) list \<Rightarrow> AccountData \<Rightarrow> (string \<times> leadsRevenue) list" where
  "campaignRow m account =
     (let campaign = orElse (lastTouchCampaign account) (orElse (firstTouchCampaign account) [])
      in if campaign \<noteq> [] \<and> trim campaign \<noteq> [] \<and> campaign \<noteq> ''Unknown Campaign''
         then addLead \<lparr>leads = 0, revenue = 0\<rparr> campaign (parseCurrency (totalSales account)) m
         else m)"

text \<open>Landing pages: the page name of a path, or the shortened URL when it does not parse.\<close>

definition pageNameOf :: "string \<Rightarrow> string" where
  "pageNameOf path =
     (if path = ''/'' \<or> path = [] then ''Homepage''
      else if includesStr path ''/home'' then ''Home Page''
      else if includesStr path ''/product'' then ''Product Pages''
      else if includesStr path ''/about'' then ''About Us''
      else if includesStr path ''/contact'' then ''Contact Us''
      else if includesStr path ''/blog'' then ''Blog''
      else if includesStr path ''/pricing'' then ''Pricing''
      else if includesStr path ''/demo'' then ''Demo/Trial''
      else if includesStr path ''/case-study'' \<or> includesStr path ''/case-studies''
        then ''Case Studies''
      else if includesStr path ''/resource'' then ''Resources''
      else if length path > 30 then take 30 path @ ''...''
      else path)"

definition landingRow ::
  "platform \<Rightarrow> (string \<times> pagePerf) list \<Rightarrow> AccountData \<Rightarrow> (string \<times> pagePerf) list" where
  "landingRow P m account =
     (let firstUrl = orElse (firstURL account) []
      in if firstUrl \<noteq> [] \<and> trim firstUrl \<noteq> [] then
           (let k = (case pathname P firstUrl of
                       Some path \<Rightarrow> pageNameOf path
                     | None \<Rightarrow> if length firstUrl > 40 then take 40 firstUrl @ ''...'' else firstUrl);
                b = (case map_of m k of
                       None \<Rightarrow> \<lparr>leads = 0, revenue = 0, conversionRate = 0, avgDealSize = 0,
                                sqlCount = 0\<rparr>
                     | Some b \<Rightarrow> b)
            in if k \<in> set inheritedKeys then m
               else
                 setOwn k
                   (b\<lparr>leads := leads b + 1,
                      revenue := revenue b + parseCurrency (totalSales account),
                      sqlCount := (if isSQL account then sqlCount b + 1 else sqlCount b)\<rparr>)
                   m)
         else m)"

definition landingRates :: "string \<times> pagePerf \<Rightarrow> string \<times> pagePerf" where
  "landingRates = (\<lambda>(page, pageData).
     (page,
      pageData
        \<lparr>avgDealSize :=
           (if leads pageData > 0 then revenue pageData / real (leads pageData) else 0),
         conversionRate :=
           (if leads pageData > 0
            then real (sqlCount pageData) / real (leads pageData) * 100 else 0)\<rparr>))"

text \<open>The whole function: the first loop, then the passes that fill the other fields.\<close>

definition processAccountDataInternal :: "platform \<Rightarrow> AccountData list \<Rightarrow> ProcessedData" where
  "processAccountDataInternal P data =
     (case foldl (mainRow P) (initialProcessed data, 0, []) data of
        (processed, totalSalesValue, validSales) \<Rightarrow>
          (let sortedAccounts = sortedAccountsOf data
           in processed
                \<lparr>totalRevenue := totalSalesValue,
                 averageDealSize := calculateAverage validSales,
                 monthlyTrends := monthlyTrendsOf P data,
                 topPerformingAccounts := take 5 sortedAccounts,
                 leastPerformingAccounts := leastPerformingOf sortedAccounts,
                 trafficSourcePerformance := trafficSourcePerformanceOf data,
                 geographicDistribution := foldl geoRow [] data,
                 leadHealthScores := leadHealthScoresOf P data,
                 campaignPerformance := foldl campaignRow [] data,
                 landingPagePerformance := map landingRates (foldl (landingRow P) [] data)\<rparr>))"

section \<open>The ranking on a store of arrays\<close>

text \<open>
  Whether a ranking can disturb \<^verbatim>\<open>allAccounts\<close> is a question of aliasing:
  \<^verbatim>\<open>processed.allAccounts\<close> is the array \<^verbatim>\<open>data\<close> itself, and \<^verbatim>\<open>sort\<close> and
  \<^verbatim>\<open>reverse\<close> work in place. Here arrays live in a store and are named by their
  address; \<^verbatim>\<open>[...a]\<close>, \<^verbatim>\<open>filter\<close>, \<^verbatim>\<open>slice\<close> and concatenation allocate a new
  array, \<^verbatim>\<open>sort\<close> and \<^verbatim>\<open>reverse\<close> overwrite the array they are called on.
\<close>

type_synonym 'a store = "'a list list"

definition alloc :: "'a store \<Rightarrow> 'a list \<Rightarrow> 'a store \<times> nat" where
  "alloc h xs = (h @ [xs], length h)"

definition spread :: "'a store \<Rightarrow> nat \<Rightarrow> 'a store \<times> nat" where
  "spread h r = alloc h (h ! r)"

definition sortInPlace :: "('a \<Rightarrow> 'a \<Rightarrow> real) \<Rightarrow> 'a store \<Rightarrow> nat \<Rightarrow> 'a store \<times> nat" where
  "sortInPlace cmp h r = (h[r := jsSort cmp (h ! r)], r)"

definition reverseInPlace :: "'a store \<Rightarrow> nat \<Rightarrow> 'a store \<times> nat" where
  "reverseInPlace h r = (h[r := rev (h ! r)], r)"

definition filterNew :: "('a \<Rightarrow> bool) \<Rightarrow> 'a store \<Rightarrow> nat \<Rightarrow> 'a store \<times> nat" where
  "filterNew p h r = alloc h (filter p (h ! r))"

definition sliceHeadNew :: "nat \<Rightarrow> 'a store \<Rightarrow> nat \<Rightarrow> 'a store \<times> nat" where
  "sliceHeadNew k h r = alloc h (take k (h ! r))"

definition sliceLastNew :: "nat \<Rightarrow> 'a store \<Rightarrow> nat \<Rightarrow> 'a store \<times> nat" where
  "sliceLastNew k h r = alloc h (sliceLast k (h ! r))"

definition concatNew :: "'a store \<Rightarrow> nat \<Rightarrow> nat \<Rightarrow> 'a store \<times> nat" where
  "concatNew h r1 r2 = alloc h (h ! r1 @ h ! r2)"

text \<open>
  The ranking statements of \<^verbatim>\<open>processAccountDataInternal\<close> on the store: the result
  is the new store with the addresses of \<^verbatim>\<open>topPerformingAccounts\<close> and
  \<^verbatim>\<open>leastPerformingAccounts\<close>; \<^verbatim>\<open>allAccounts\<close> keeps the address \<open>dataRef\<close>.
\<close>

definition rankingOnStore :: "AccountData store \<Rightarrow> nat \<Rightarrow> AccountData store \<times> nat \<times> nat" where
  "rankingOnStore h0 dataRef =
     (let (h1, copyRef) = spread h0 dataRef;
          (h2, sortedRef) =
            sortInPlace (\<lambda>a b. parseCurrency (totalSales b) - parseCurrency (totalSales a))
              h1 copyRef;
          (h3, topRef) = sliceHeadNew 5 h2 sortedRef;
          (h4, negRef) = filterNew (\<lambda>acc. parseCurrency (totalSales acc) < 0) h3 sortedRef;
          (h5, tailRef) = sliceLastNew 5 h4 negRef;
          (h6, leastRef) = reverseInPlace h5 tailRef
      in if length (h6 ! leastRef) < 5 \<and> length (h6 ! sortedRef) > 0 then
           (let (h7, posRef) =
                  filterNew (\<lambda>acc. parseCurrency (totalSales acc) \<ge> 0) h6 sortedRef;
                (h8, lowRef) = sliceLastNew (5 - length (h7 ! leastRef)) h7 posRef;
                (h9, lowestPositiveRef) = reverseInPlace h8 lowRef;
                (h10, joinedRef) = concatNew h9 leastRef lowestPositiveRef
            in (h10, topRef, joinedRef))
         else (h6, topRef, leastRef))"

section \<open>The record transformer\<close>

text \<open>
  A contact of the remote API: its id, its properties by name (an absent or null
  property is \<open>None\<close>) and the ids of its associated companies. A company has an id
  and properties, an owner a first and a last name.
\<close>

record contact =
  contactId :: string
  properties :: "string \<Rightarrow> string option"
  companyAssociations :: "string list"

record company =
  companyId :: string
  companyProperties :: "string \<Rightarrow> string option"

record owner =
  firstName :: "string option"
  lastName :: "string option"

text \<open>
  What the transformer and the fetch ask of the runtime.
  \<^item> \<open>dateMillis s\<close>: \<^verbatim>\<open>new Date(s).getTime()\<close>, \<open>None\<close> for NaN; dates are compared
    by this value;
  \<^item> \<open>localeDateUS s\<close>: \<^verbatim>\<open>new Date(s).toLocaleDateString("en-US")\<close>;
  \<^item> \<open>fullYear t\<close>: \<^verbatim>\<open>getFullYear()\<close> of the date with time value \<open>t\<close>;
  \<^item> \<open>randomId i\<close>: the value of \<^verbatim>\<open>Math.floor(Math.random() * 1000000)\<close> that is drawn
    for the contact at position \<open>i\<close>, if one is drawn.
\<close>

record runtime =
  dateMillis :: "string \<Rightarrow> int option"
  localeDateUS :: "string \<Rightarrow> string"
  fullYear :: "int \<Rightarrow> int"
  randomId :: "nat \<Rightarrow> int"

text \<open>An optional string as a condition: \<open>None\<close> when it is absent or empty.\<close>

definition truthy :: "string option \<Rightarrow> string option" where
  "truthy x = (case x of None \<Rightarrow> None | Some s \<Rightarrow> if s = [] then None else Some s)"

text \<open>
  \<^verbatim>\<open>Number.parseInt(s, 10)\<close>: the integer of the leading digits, as a double, NaN
  when there is no digit.
\<close>

definition parseIntJS :: "string \<Rightarrow> jsnum" where
  "parseIntJS s =
     (let t = dropWhile isSpace s;
          sg = (t \<noteq> [] \<and> (hd t = CHR ''-'' \<or> hd t = CHR ''+''));
          ds = takeWhile isDigit (if sg then tl t else t)
      in if ds = [] then NaN
         else if sg \<and> hd t = CHR ''-'' then negate (roundDouble (real (digitsVal ds)))
         else roundDouble (real (digitsVal ds)))"

text \<open>\<^verbatim>\<open>parts.filter(Boolean).join(", ")\<close> on optional strings.\<close>

fun joinComma :: "string list \<Rightarrow> string" where
  "joinComma [] = []"
| "joinComma [x] = x"
| "joinComma (x # y # ys) = x @ '', '' @ joinComma (y # ys)"

definition joinPresent :: "string option list \<Rightarrow> string" where
  "joinPresent parts = joinComma (List.map_filter truthy parts)"

text \<open>The company of a contact: the one its first association names, if it was fetched.\<close>

definition companyOf :: "(string \<Rightarrow> company option) \<Rightarrow> contact \<Rightarrow> company option" where
  "companyOf companiesMap c =
     (case companyAssociations c of
        [] \<Rightarrow> None
      | cid # _ \<Rightarrow> if cid = [] then None else companiesMap cid)"

definition companyProp :: "company option \<Rightarrow> string \<Rightarrow> string option" where
  "companyProp co k = (case co of None \<Rightarrow> None | Some c \<Rightarrow> truthy (companyProperties c k))"

text \<open>The filter of the transformer: the creation date, when it parses, must be in range.\<close>

definition keepContact ::
  "runtime \<Rightarrow> (string \<Rightarrow> company option) \<Rightarrow> int option \<Rightarrow> int option \<Rightarrow> contact \<Rightarrow> bool" where
  "keepContact R companiesMap startDate endDate c =
     (if startDate \<noteq> None \<or> endDate \<noteq> None then
        (let createdDateStr =
               (case truthy (properties c ''createdate'') of
                  Some s \<Rightarrow> Some s
                | None \<Rightarrow> companyProp (companyOf companiesMap c) ''createdate'')
         in (case createdDateStr of
               None \<Rightarrow> True
             | Some s \<Rightarrow>
                 (case dateMillis R s of
                    None \<Rightarrow> True
                  | Some createdDate \<Rightarrow>
                      \<not> (case startDate of None \<Rightarrow> False | Some sd \<Rightarrow> createdDate < sd)
                      \<and> \<not> (case endDate of None \<Rightarrow> False | Some ed \<Rightarrow> createdDate > ed))))
      else True)"

text \<open>
  The estimated value of a lead: the \<^verbatim>\<open>switch\<close> on the lower-cased lifecycle stage.
\<close>

definition leadValue :: "string \<Rightarrow> string" where
  "leadValue lifecycleStg =
     (let st = toLowerCase lifecycleStg
      in if st = ''customer'' then ''25000''
         else if st = ''salesqualifiedlead'' \<or> st = ''sql'' then ''10000''
         else if st = ''marketingqualifiedlead'' \<or> st = ''mql'' then ''5000''
         else if st = ''lead'' then ''2000''
         else if st = ''subscriber'' then ''500''
         else ''1000'')"

text \<open>The mapping of one contact; \<open>i\<close> is its position among the contacts that are kept.\<close>

definition transformContact ::
  "runtime \<Rightarrow> (string \<Rightarrow> company option) \<Rightarrow> (string \<Rightarrow> owner option) \<Rightarrow> nat \<Rightarrow> contact
     \<Rightarrow> AccountData" where
  "transformContact R companiesMap ownersMap i c =
     (let co = companyOf companiesMap c;
          own = (case truthy (properties c ''hubspot_owner_id'') of
                   None \<Rightarrow> None
                 | Some oid \<Rightarrow> ownersMap oid);
          contactName = trim (orElse (properties c ''firstname'') [] @ '' ''
                              @ orElse (properties c ''lastname'') []);
          accountNm =
            orElse (companyProp co ''name'')
              (orElse (properties c ''company'') (orElse (Some contactName) ''Unknown Account''));
          lifecycleStg = orElse (properties c ''lifecyclestage'') ''unknown'';
          created =
            (case truthy (properties c ''createdate'') of
               Some s \<Rightarrow> localeDateUS R s
             | None \<Rightarrow>
                 (case companyProp co ''createdate'' of
                    Some s \<Rightarrow> localeDateUS R s
                  | None \<Rightarrow> ''N/A''));
          lastQuoted =
            (case truthy (properties c ''lastmodifieddate'') of
               Some s \<Rightarrow> localeDateUS R s
             | None \<Rightarrow> ''N/A'');
          repName =
            (case own of
               None \<Rightarrow> ''N/A''
             | Some ow \<Rightarrow>
                 orElse (Some (trim (orElse (firstName ow) [] @ '' '' @ orElse (lastName ow) [])))
                   ''N/A'');
          addr =
            (case co of
               Some cmp \<Rightarrow>
                 orElse (Some (trim (joinPresent
                   [companyProperties cmp ''address'', companyProperties cmp ''city'',
                    companyProperties cmp ''state'', companyProperties cmp ''zip''])))
                   ''N/A''
             | None \<Rightarrow>
                 orElse (Some (trim (joinPresent
                   [properties c ''city'', properties c ''state'', properties c ''country''])))
                   ''N/A'');
          idText = (case co of
                      None \<Rightarrow> contactId c
                    | Some cmp \<Rightarrow> if companyId cmp = [] then contactId c else companyId cmp)
      in \<lparr>accountID =
            (case parseIntJS idText of
               NaN \<Rightarrow> Fin (of_int (randomId R i))
             | Fin n \<Rightarrow> if n = 0 then Fin (of_int (randomId R i)) else Fin n
             | PosInf \<Rightarrow> PosInf
             | NegInf \<Rightarrow> NegInf),
          accountName = accountNm,
          address = addr,
          totalSales = leadValue lifecycleStg,
          dateCreated = created,
          dateLastQuoted = lastQuoted,
          primaryRepName = repName,
          brand = None,
          lifecycleStage = Some lifecycleStg,
          analyticsSource = Some (orElse (properties c ''hs_analytics_source'') ''Unknown''),
          latestSource = Some (orElse (properties c ''hs_latest_source'') ''Unknown''),
          sourceData1 = Some (orElse (properties c ''hs_analytics_source_data_1'') []),
          sourceData2 = Some (orElse (properties c ''hs_analytics_source_data_2'') []),
          firstTouchCampaign =
            Some (orElse (properties c ''hs_analytics_first_touch_converting_campaign'') []),
          lastTouchCampaign =
            Some (orElse (properties c ''hs_analytics_last_touch_converting_campaign'') []),
          firstURL = Some (orElse (properties c ''hs_analytics_first_url'') []),
          lastURL = Some (orElse (properties c ''hs_analytics_last_url'') []),
          numberOfVisits = Some (orElse (properties c ''hs_analytics_num_visits'') ''0''),
          numberOfPageViews = Some (orElse (properties c ''hs_analytics_num_page_views'') ''0'')\<rparr>)"

definition transformHubSpotDataToAccountData ::
  "runtime \<Rightarrow> contact list \<Rightarrow> (string \<Rightarrow> company option) \<Rightarrow> (string \<Rightarrow> owner option)
     \<Rightarrow> int option \<Rightarrow> int option \<Rightarrow> AccountData list" where
  "transformHubSpotDataToAccountData R contacts companiesMap ownersMap startDate endDate =
     (let kept = filter (keepContact R companiesMap startDate endDate) contacts
      in map (\<lambda>(i, c). transformContact R companiesMap ownersMap i c)
           (zip [0 ..< length kept] kept))"

section \<open>The fetch and its fallback: fetchAndProcessHubSpotData\<close>

text \<open>
  The world outside the program: the environment variable, the remote API (a call
  answers with a value or throws, \<open>Inl\<close> being the error), and the accounts that
  \<^verbatim>\<open>processCSVData\<close> builds from the file for a date range (\<open>Inl\<close> when reading or
  converting it throws). A page of contacts carries the cursor of the next one.
\<close>

record page =
  results :: "contact list"
  nextAfter :: "string option"

record world =
  apiKey :: "string option"
  doSearch :: "int \<Rightarrow> string option \<Rightarrow> string + page"
  getPage :: "string option \<Rightarrow> string + page"
  companyById :: "string \<Rightarrow> string + company"
  ownerById :: "string \<Rightarrow> string + owner"
  csvAccounts :: "int option \<Rightarrow> int option \<Rightarrow> string + AccountData list"

text \<open>The calls that leave the program, in the order they are made.\<close>

datatype event =
  Search "string option" | GetPage "string option" | GetCompany string | GetOwner string
  | ReadCSV

text \<open>What the caller gets: a rejection with a message, or a snapshot or \<^verbatim>\<open>null\<close>.\<close>

datatype outcome = Throws string | Returns "ProcessedData option"

text \<open>
  A loop \<^verbatim>\<open>do { ... } while (after && pageCount < maxPages)\<close>; the number is the
  count of pages that may still be asked for. The contacts of the pages read so far stay
  in \<^verbatim>\<open>allContacts\<close> when a call throws.
\<close>

fun paginate ::
  "(string option \<Rightarrow> event) \<Rightarrow> (string option \<Rightarrow> string + page) \<Rightarrow> nat \<Rightarrow> string option
     \<Rightarrow> contact list \<times> event list \<Rightarrow> (contact list \<times> event list) \<times> string option" where
  "paginate ev api 0 after (allContacts, calls) = ((allContacts, calls), None)"
| "paginate ev api (Suc n) after (allContacts, calls) =
     (case api after of
        Inl e \<Rightarrow> ((allContacts, calls @ [ev after]), Some e)
      | Inr p \<Rightarrow>
          (if truthy (nextAfter p) \<noteq> None \<and> n > 0
           then paginate ev api n (nextAfter p) (allContacts @ results p, calls @ [ev after])
           else ((allContacts @ results p, calls @ [ev after]), None)))"

text \<open>
  The fetch of all contacts: the search API for a start date in 2025 or later, with
  plain pagination when the search throws, and plain pagination otherwise.
\<close>

definition fetchContacts ::
  "runtime \<Rightarrow> world \<Rightarrow> int option \<Rightarrow> (contact list \<times> event list) \<times> string option" where
  "fetchContacts R W startDate =
     (if (case startDate of None \<Rightarrow> False | Some sd \<Rightarrow> fullYear R sd \<ge> 2025) then
        (case startDate of
           None \<Rightarrow> paginate GetPage (getPage W) 500 None ([], [])
         | Some sd \<Rightarrow>
             (case paginate Search (doSearch W sd) 500 None ([], []) of
                (st, None) \<Rightarrow> (st, None)
              | (st, Some searchError) \<Rightarrow> paginate GetPage (getPage W) 200 None st))
      else paginate GetPage (getPage W) 500 None ([], []))"

text \<open>The filter for sales and marketing qualified leads.\<close>

definition isQualified :: "contact \<Rightarrow> bool" where
  "isQualified c =
     (let lifecycleStg = map_option toLowerCase (properties c ''lifecyclestage'');
          leadStatus = map_option toLowerCase (properties c ''lead_status'');
          hsLeadStatus = map_option toLowerCase (properties c ''hs_lead_status'')
      in lifecycleStg = Some ''salesqualifiedlead''
         \<or> lifecycleStg = Some ''marketingqualifiedlead''
         \<or> lifecycleStg = Some ''sql''
         \<or> lifecycleStg = Some ''mql''
         \<or> leadStatus = Some ''sales qualified lead''
         \<or> leadStatus = Some ''marketing qualified lead''
         \<or> leadStatus = Some ''sql''
         \<or> leadStatus = Some ''mql''
         \<or> hsLeadStatus = Some ''sales qualified lead''
         \<or> hsLeadStatus = Some ''marketing qualified lead''
         \<or> hsLeadStatus = Some ''sql''
         \<or> hsLeadStatus = Some ''mql'')"

text \<open>The date filter on the qualified leads: a contact without a valid date is dropped.\<close>

definition createdInRange :: "runtime \<Rightarrow> int option \<Rightarrow> int option \<Rightarrow> contact \<Rightarrow> bool" where
  "createdInRange R startDate endDate c =
     (case truthy (properties c ''createdate'') of
        None \<Rightarrow> False
      | Some createDate \<Rightarrow>
          (case dateMillis R createDate of
             None \<Rightarrow> False
           | Some contactDate \<Rightarrow>
               \<not> (case startDate of None \<Rightarrow> False | Some sd \<Rightarrow> contactDate < sd)
               \<and> \<not> (case endDate of None \<Rightarrow> False | Some ed \<Rightarrow> contactDate > ed)))"

text \<open>The elements of a \<^verbatim>\<open>Set\<close> in the order of their first insertion.\<close>

definition insertionOrder :: "string list \<Rightarrow> string list" where
  "insertionOrder xs = rev (remdups (rev xs))"

text \<open>The lookups by id, one at a time; an id whose lookup throws is left out of the map.\<close>

definition lookupAll :: "(string \<Rightarrow> string + 'a) \<Rightarrow> string list \<Rightarrow> (string \<Rightarrow> 'a option)" where
  "lookupAll f ids =
     foldl (\<lambda>m i. case f i of Inl e \<Rightarrow> m | Inr v \<Rightarrow> m(i \<mapsto> v)) (\<lambda>i. None) ids"

definition processCSVData ::
  "platform \<Rightarrow> world \<Rightarrow> int option \<Rightarrow> int option \<Rightarrow> string + ProcessedData" where
  "processCSVData P W startDate endDate =
     (case csvAccounts W startDate endDate of
        Inl e \<Rightarrow> Inl ''Failed to process CSV data''
      | Inr accts \<Rightarrow> Inr (processAccountDataInternal P accts))"

definition fetchAndProcessHubSpotData ::
  "platform \<Rightarrow> runtime \<Rightarrow> world \<Rightarrow> int option \<Rightarrow> int option \<Rightarrow> event list \<times> outcome" where
  "fetchAndProcessHubSpotData P R W startDate endDate =
     (case truthy (map_option trim (apiKey W)) of
        None \<Rightarrow>
          ([], Throws
            ''HubSpot API key (HUBSPOT_API_KEY) is not configured in environment variables.'')
      | Some key \<Rightarrow>
          (case fetchContacts R W startDate of
             ((allContacts, calls), Some e) \<Rightarrow> (calls, Returns None)
           | ((allContacts, calls), None) \<Rightarrow>
               (let qualifiedLeads = filter isQualified allContacts
                in if length qualifiedLeads = 0 then
                     (calls @ [ReadCSV],
                      (case processCSVData P W startDate endDate of
                         Inl e \<Rightarrow> Returns None
                       | Inr snapshot \<Rightarrow> Returns (Some snapshot)))
                   else
                     (let contacts =
                            (if startDate \<noteq> None \<or> endDate \<noteq> None
                             then filter (createdInRange R startDate endDate) qualifiedLeads
                             else qualifiedLeads);
                          companyIds = insertionOrder (concat (map companyAssociations contacts));
                          ownerIds =
                            insertionOrder
                              (List.map_filter (\<lambda>c. truthy (properties c ''hubspot_owner_id''))
                                 contacts);
                          companiesMap = lookupAll (companyById W) companyIds;
                          ownersMap = lookupAll (ownerById W) ownerIds;
                          accountDataList =
                            transformHubSpotDataToAccountData R contacts companiesMap ownersMap
                              startDate endDate
                      in (calls @ map GetCompany companyIds @ map GetOwner ownerIds,
                          Returns (Some (processAccountDataInternal P accountDataList)))))))"

section \<open>Reference definitions and sample inputs\<close>

text \<open>A row that passes the guard of the first loop: the magnitude of its value is at most 1e12.\<close>

definition validRow :: "AccountData \<Rightarrow> bool" where
  "validRow row \<longleftrightarrow> \<bar>parseCurrency (totalSales row)\<bar> \<le> 10 ^ 12"

text \<open>The key of a row in \<open>salesByRep\<close>: \<^verbatim>\<open>row["Primary Rep Name"] || "N/A"\<close>.\<close>

definition repKey :: "AccountData \<Rightarrow> string" where
  "repKey row = (if primaryRepName row = [] then ''N/A'' else primaryRepName row)"

text \<open>
  The lead health score as the specification words it: base 50, one source bonus with
  the priority Referral, Organic Search, Paid Search, one bonus for visits, one for the
  stage, and the clamp to the range from 0 to 100.
\<close>

definition specSourceBonus :: "string \<Rightarrow> int" where
  "specSourceBonus source =
     (if includesStr source ''Referral'' then 20
      else if includesStr source ''Organic Search'' then 15
      else if includesStr source ''Paid Search'' then 10
      else 0)"

definition visitsBonus :: "jsnum \<Rightarrow> int" where
  "visitsBonus visits = (if gt visits 5 then 15 else if gt visits 2 then 10 else 0)"

definition stageBonus :: "string \<Rightarrow> int" where
  "stageBonus stage =
     (if stage = ''customer'' then 30
      else if stage = ''salesqualifiedlead'' then 25
      else if stage = ''marketingqualifiedlead'' then 15
      else 0)"

definition recordedVisits :: "AccountData \<Rightarrow> jsnum" where
  "recordedVisits account =
     (case truthy (numberOfVisits account) of None \<Rightarrow> Fin 0 | Some s \<Rightarrow> toNumber s)"

definition stageOf :: "AccountData \<Rightarrow> string" where
  "stageOf account = (case lifecycleStage account of None \<Rightarrow> [] | Some s \<Rightarrow> toLowerCase s)"

definition clampScore :: "int \<Rightarrow> int" where
  "clampScore x = (if x < 0 then 0 else if x > 100 then 100 else x)"

definition specLeadHealthScore :: "AccountData \<Rightarrow> int" where
  "specLeadHealthScore account =
     clampScore (50 + specSourceBonus (orElse (analyticsSource account) ''Unknown'')
                 + visitsBonus (recordedVisits account) + stageBonus (stageOf account))"

text \<open>The same with the priority of the sources that the code has.\<close>

definition codeSourceBonus :: "string \<Rightarrow> int" where
  "codeSourceBonus source =
     (if includesStr source ''Organic Search'' then 15
      else if includesStr source ''Paid Search'' then 10
      else if includesStr source ''Referral'' then 20
      else 0)"

definition amendedLeadHealthScore :: "AccountData \<Rightarrow> int" where
  "amendedLeadHealthScore account =
     clampScore (50 + codeSourceBonus (orElse (analyticsSource account) ''Unknown'')
                 + visitsBonus (recordedVisits account) + stageBonus (stageOf account))"

text \<open>
  The order of the lifecycle stages in the specification, most valuable first, and the
  order that the estimated values of the code have.
\<close>

definition specStageRank :: "string \<Rightarrow> nat" where
  "specStageRank stage =
     (let st = toLowerCase stage
      in if st = ''customer'' then 0
         else if st = ''salesqualifiedlead'' \<or> st = ''sql'' then 1
         else if st = ''marketingqualifiedlead'' \<or> st = ''mql'' then 2
         else if st = ''lead'' then 3
         else if st = ''subscriber'' then 4
         else 5)"

definition codeStageRank :: "string \<Rightarrow> nat" where
  "codeStageRank stage =
     (let st = toLowerCase stage
      in if st = ''customer'' then 0
         else if st = ''salesqualifiedlead'' \<or> st = ''sql'' then 1
         else if st = ''marketingqualifiedlead'' \<or> st = ''mql'' then 2
         else if st = ''lead'' then 3
         else if st = ''subscriber'' then 5
         else 4)"

text \<open>The stage that the transformer reads from a contact, and the value of each rank.\<close>

definition contactStage :: "contact \<Rightarrow> string" where
  "contactStage c = orElse (properties c ''lifecyclestage'') ''unknown''"

definition rankValue :: "nat \<Rightarrow> real" where
  "rankValue r =
     (if r = 0 then 25000 else if r = 1 then 10000 else if r = 2 then 5000
      else if r = 3 then 2000 else if r = 4 then 1000 else 500)"

text \<open>
  A contact that has a lifecycle stage and nothing else, lookups that know no company and
  no owner, and a runtime for the transformer.
\<close>

definition stageProperty :: "string \<Rightarrow> string \<Rightarrow> string option" where
  "stageProperty stage k = (if k = ''lifecyclestage'' then Some stage else None)"

definition contact0 :: "string \<Rightarrow> contact" where
  "contact0 stage =
     \<lparr>contactId = ''42'', properties = stageProperty stage, companyAssociations = []\<rparr>"

definition nothingFetched :: "string \<Rightarrow> 'a option" where
  "nothingFetched k = None"

definition runtime0 :: runtime where
  "runtime0 =
     \<lparr>dateMillis = nothingFetched, localeDateUS = id, fullYear = (\<lambda>t. 1970),
      randomId = (\<lambda>i. 0)\<rparr>"

text \<open>
  Two worlds for the fetch. In the first the credential is not set. In the second it is
  set, the remote API has one page with one contact, a plain lead, and the file holds
  the accounts of \<open>csvSample\<close>.
\<close>

definition csvSample :: "AccountData list" where
  "csvSample =
     [\<lparr>accountID = Fin 1, accountName = ''Acme Tools'', address = ''N/A'', totalSales = ''500'',
       dateCreated = ''N/A'', dateLastQuoted = ''N/A'', primaryRepName = ''N/A'',
       brand = None, lifecycleStage = Some ''marketingqualifiedlead'', analyticsSource = None,
       latestSource = None, sourceData1 = None, sourceData2 = None,
       firstTouchCampaign = None, lastTouchCampaign = None, firstURL = None, lastURL = None,
       numberOfVisits = None, numberOfPageViews = None\<rparr>]"

definition onePage :: "string option \<Rightarrow> string + page" where
  "onePage after = Inr \<lparr>results = [contact0 ''lead''], nextAfter = None\<rparr>"

definition noSearch :: "int \<Rightarrow> string option \<Rightarrow> string + page" where
  "noSearch sd after = Inl ''search failed''"

definition notFound :: "string \<Rightarrow> string + 'a" where
  "notFound i = Inl ''not found''"

definition csvFile :: "int option \<Rightarrow> int option \<Rightarrow> string + AccountData list" where
  "csvFile startDate endDate = Inr csvSample"

definition worldNoKey :: world where
  "worldNoKey =
     \<lparr>apiKey = None, doSearch = noSearch, getPage = onePage, companyById = notFound,
      ownerById = notFound, csvAccounts = csvFile\<rparr>"

definition worldOneLead :: world where
  "worldOneLead =
     \<lparr>apiKey = Some ''pat-key'', doSearch = noSearch, getPage = onePage,
      companyById = notFound, ownerById = notFound, csvAccounts = csvFile\<rparr>"

text \<open>A runtime on which no date and no URL parses, and accounts to run the code on.\<close>

definition platform0 :: platform where
  "platform0 =
     \<lparr>monthKey = (\<lambda>s. None), monthLabel = (\<lambda>k. k), localeCompare = (\<lambda>a b. 0),
      quotedLately = (\<lambda>s. False), daysSince = (\<lambda>s. NaN), pathname = (\<lambda>u. None)\<rparr>"

text \<open>A runtime that knows one date, the 15th of January 2025.\<close>

definition platform1 :: platform where
  "platform1 =
     \<lparr>monthKey = (\<lambda>s. if s = ''1/15/2025'' then Some ''2025-01'' else None),
      monthLabel = (\<lambda>k. k), localeCompare = (\<lambda>a b. 0),
      quotedLately = (\<lambda>s. False), daysSince = (\<lambda>s. NaN), pathname = (\<lambda>u. None)\<rparr>"

definition account0 :: "string \<Rightarrow> string \<Rightarrow> AccountData" where
  "account0 nm ts =
     \<lparr>accountID = Fin 1, accountName = nm, address = ''N/A'', totalSales = ts,
      dateCreated = ''N/A'', dateLastQuoted = ''N/A'', primaryRepName = ''N/A'',
      brand = None, lifecycleStage = None, analyticsSource = None, latestSource = None,
      sourceData1 = None, sourceData2 = None, firstTouchCampaign = None,
      lastTouchCampaign = None, firstURL = None, lastURL = None, numberOfVisits = None,
      numberOfPageViews = None\<rparr>"

definition richAccount :: "string \<Rightarrow> AccountData" where
  "richAccount ts =
     \<lparr>accountID = Fin 7, accountName = ''Foo Corp'',
      address = ''123 Main St, Columbus, OH 43215'', totalSales = ts,
      dateCreated = ''1/15/2025'', dateLastQuoted = ''N/A'', primaryRepName = ''Ann Lee'',
      brand = None, lifecycleStage = Some ''customer'',
      analyticsSource = Some ''Organic Search'', latestSource = None, sourceData1 = None,
      sourceData2 = None, firstTouchCampaign = Some ''Spring'', lastTouchCampaign = None,
      firstURL = Some ''/pricing'', lastURL = None, numberOfVisits = Some ''6'',
      numberOfPageViews = None\<rparr>"

text \<open>An account whose source names a referral and an organic search.\<close>

definition mixedSourceAccount :: AccountData where
  "mixedSourceAccount = (account0 ''A'' ''0'')\<lparr>analyticsSource := Some ''Referral, Organic Search''\<rparr>"

text \<open>The parsed sales value of an account, by which the ranking sorts.\<close>

definition salesValue :: "AccountData \<Rightarrow> real" where
  "salesValue a = parseCurrency (totalSales a)"

text \<open>Seven accounts with the values -3, -1, -7, -2, -6, -4 and -5.\<close>

definition negSeven :: "AccountData list" where
  "negSeven =
     [account0 ''C'' ''-3'', account0 ''A'' ''-1'', account0 ''G'' ''-7'', account0 ''B'' ''-2'',
      account0 ''F'' ''-6'', account0 ''D'' ''-4'', account0 ''E'' ''-5'']"

definition sampleData :: "AccountData list" where
  "sampleData = [account0 ''B'' ''-3'', account0 ''A'' ''7'']"

section \<open>Properties of the aggregation\<close>

subsection \<open>Rollups as folds\<close>


lemma map_of_addCount:
  "map_of (addCount k m) k' = (if k' = k then Some ((case map_of m k of None \<Rightarrow> 0 | Some n \<Rightarrow> n) + 1) else map_of m k')"
  by (simp add: addCount_def update_conv')

lemma keys_addCount:
  "map fst (addCount k m) = (if k \<in> set (map fst m) then map fst m else map fst m @ [k])"
  by (simp add: addCount_def update_keys)

lemma mainRow_fst_cases:
  "mainRow P st row = st' \<Longrightarrow> \<not> validRow row \<Longrightarrow> st' = st"
  by (cases st) (auto simp: validRow_def Let_def)

lemma mainRow_salesDistribution:
  "salesDistribution (fst (mainRow P st row)) =
     (if validRow row then addCount (salesBand (parseCurrency (totalSales row))) (salesDistribution (fst st))
      else salesDistribution (fst st))"
  by (cases st) (simp add: validRow_def Let_def)

lemma foldl_mainRow_salesDistribution:
  "salesDistribution (fst (foldl (mainRow P) st data)) =
     foldl (\<lambda>m row. if validRow row then addCount (salesBand (parseCurrency (totalSales row))) m else m)
       (salesDistribution (fst st)) data"
  by (induction data arbitrary: st) (simp_all add: mainRow_salesDistribution)

lemma processed_salesDistribution:
  "salesDistribution (processAccountDataInternal P data) =
     salesDistribution (fst (foldl (mainRow P) (initialProcessed data, 0, []) data))"
  by (simp add: processAccountDataInternal_def Let_def split: prod.splits)

lemma foldl_count_keys:
  "\<forall>r. key r \<in> set ks \<Longrightarrow> map fst m = ks \<Longrightarrow>
   map fst (foldl (\<lambda>m r. if p r then addCount (key r) m else m) m rows) = ks"
  by (induction rows arbitrary: m) (simp_all add: keys_addCount)

lemma foldl_count_map_of:
  "map_of (foldl (\<lambda>m r. if p r then addCount (key r) m else m) m rows) k =
     (let n = length (filter (\<lambda>r. p r \<and> key r = k) rows)
      in case map_of m k of None \<Rightarrow> (if n = 0 then None else Some n) | Some c \<Rightarrow> Some (c + n))"
  by (induction rows arbitrary: m) (auto simp: map_of_addCount Let_def split: option.splits)

text \<open>Own properties: what \<open>setOwn\<close> does to the entries, the keys and the lookup.\<close>

lemma set_update_cases:
  "x \<in> set (AList.update k v m) \<Longrightarrow> x = (k, v) \<or> x \<in> set m"
  by (induction m) (auto split: if_splits)

lemma set_insertIndex: "set (insertIndex k v m) = insert (k, v) (set m)"
  by (induction m) auto

lemma set_setOwn_cases:
  "x \<in> set (setOwn k v m) \<Longrightarrow> x = (k, v) \<or> x \<in> set m"
  by (auto simp: setOwn_def set_insertIndex dest: set_update_cases split: if_splits)

lemma map_of_insertIndex:
  "map_of m k = None \<Longrightarrow> map_of (insertIndex k v m) = (map_of m)(k \<mapsto> v)"
proof (induction m)
  case Nil
  then show ?case by simp
next
  case (Cons p m)
  then have "fst p \<noteq> k" "map_of m k = None"
    by (cases p; auto split: if_splits)+
  with Cons.IH show ?case
    by (cases p) (auto simp: fun_upd_twist)
qed

lemma map_of_setOwn: "map_of (setOwn k v m) = (map_of m)(k \<mapsto> v)"
  by (simp add: setOwn_def map_of_insertIndex update_conv')

lemma distinct_insertIndex_keys:
  "k \<notin> fst ` set m \<Longrightarrow> distinct (map fst m) \<Longrightarrow> distinct (map fst (insertIndex k v m))"
  by (induction m) (auto simp: set_insertIndex)

lemma distinct_insertIndex:
  "map_of m k = None \<Longrightarrow> distinct (map fst m) \<Longrightarrow> distinct (map fst (insertIndex k v m))"
  by (rule distinct_insertIndex_keys) (simp_all add: map_of_eq_None_iff)

lemma distinct_setOwn: "distinct (map fst m) \<Longrightarrow> distinct (map fst (setOwn k v m))"
  by (simp add: setOwn_def distinct_insertIndex distinct_update)

lemma setOwn_new_name:
  "map_of m k = None \<Longrightarrow> \<not> isArrayIndex k \<Longrightarrow> setOwn k v m = m @ [(k, v)]"
proof -
  have "map_of m k = None \<Longrightarrow> AList.update k v m = m @ [(k, v)]"
    by (induction m) (auto split: if_splits)
  then show "map_of m k = None \<Longrightarrow> \<not> isArrayIndex k \<Longrightarrow> setOwn k v m = m @ [(k, v)]"
    by (simp add: setOwn_def)
qed

lemma addSale_pos:
  "\<forall>x \<in> set m. accounts (snd x) > 0 \<Longrightarrow> \<forall>x \<in> set (addSale k v m). accounts (snd x) > 0"
  by (auto simp: addSale_def Let_def dest!: set_setOwn_cases)

lemma addLead_pos:
  "\<forall>x \<in> set m. leads (snd x) > 0 \<Longrightarrow> \<forall>x \<in> set (addLead fresh k v m). leads (snd x) > 0"
  by (auto simp: addLead_def Let_def dest!: set_setOwn_cases)

lemma mainRow_rep_pos:
  "\<forall>x \<in> set (salesByRep (fst st)). accounts (snd x) > 0 \<Longrightarrow>
   \<forall>x \<in> set (salesByRep (fst (mainRow P st row))). accounts (snd x) > 0"
  by (cases st) (simp add: Let_def addSale_pos)

lemma mainRow_brand_pos:
  "\<forall>x \<in> set (salesByBrand (fst st)). accounts (snd x) > 0 \<Longrightarrow>
   \<forall>x \<in> set (salesByBrand (fst (mainRow P st row))). accounts (snd x) > 0"
  by (cases st) (simp add: Let_def addSale_pos)

lemma mainRow_states_pos:
  "\<forall>x \<in> set (topStates (fst st)). accounts (snd x) > 0 \<Longrightarrow>
   \<forall>x \<in> set (topStates (fst (mainRow P st row))). accounts (snd x) > 0"
  by (cases st) (simp add: Let_def addSale_pos split: option.splits)

lemma foldl_invariant:
  assumes step: "\<And>s r. I s \<Longrightarrow> I (f s r)"
  shows "I s \<Longrightarrow> I (foldl f s rows)"
proof (induction rows arbitrary: s)
  case Nil
  then show ?case by simp
next
  case (Cons r rows)
  show ?case
    unfolding foldl_Cons by (rule Cons.IH) (rule step, rule Cons.prems)
qed

lemma processed_main_fields:
  "salesByRep (processAccountDataInternal P data) = salesByRep (fst (foldl (mainRow P) (initialProcessed data, 0, []) data))"
  "salesByBrand (processAccountDataInternal P data) = salesByBrand (fst (foldl (mainRow P) (initialProcessed data, 0, []) data))"
  "topStates (processAccountDataInternal P data) = topStates (fst (foldl (mainRow P) (initialProcessed data, 0, []) data))"
  "allAccounts (processAccountDataInternal P data) = allAccounts (fst (foldl (mainRow P) (initialProcessed data, 0, []) data))"
  "totalAccounts (processAccountDataInternal P data) = totalAccounts (fst (foldl (mainRow P) (initialProcessed data, 0, []) data))"
  "totalRevenue (processAccountDataInternal P data) = fst (snd (foldl (mainRow P) (initialProcessed data, 0, []) data))"
  "averageDealSize (processAccountDataInternal P data) = calculateAverage (snd (snd (foldl (mainRow P) (initialProcessed data, 0, []) data)))"
  by (simp_all add: processAccountDataInternal_def Let_def split: prod.splits)

lemma rollups_pos_main:
  "\<forall>x \<in> set (salesByRep (processAccountDataInternal P data)). accounts (snd x) > 0"
  "\<forall>x \<in> set (salesByBrand (processAccountDataInternal P data)). accounts (snd x) > 0"
  "\<forall>x \<in> set (topStates (processAccountDataInternal P data)). accounts (snd x) > 0"
proof -
  let ?s0 = "(initialProcessed data, 0::real, []::real list)"
  show "\<forall>x \<in> set (salesByRep (processAccountDataInternal P data)). accounts (snd x) > 0"
    unfolding processed_main_fields
    by (rule foldl_invariant[where I = "\<lambda>s. \<forall>x \<in> set (salesByRep (fst s)). accounts (snd x) > 0"])
       (simp_all add: mainRow_rep_pos initialProcessed_def)
  show "\<forall>x \<in> set (salesByBrand (processAccountDataInternal P data)). accounts (snd x) > 0"
    unfolding processed_main_fields
    by (rule foldl_invariant[where I = "\<lambda>s. \<forall>x \<in> set (salesByBrand (fst s)). accounts (snd x) > 0"])
       (simp_all add: mainRow_brand_pos initialProcessed_def)
  show "\<forall>x \<in> set (topStates (processAccountDataInternal P data)). accounts (snd x) > 0"
    unfolding processed_main_fields
    by (rule foldl_invariant[where I = "\<lambda>s. \<forall>x \<in> set (topStates (fst s)). accounts (snd x) > 0"])
       (simp_all add: mainRow_states_pos initialProcessed_def)
qed

lemma traffic_pos: "\<forall>x \<in> set (trafficSourcePerformance (processAccountDataInternal P data)). leads (snd x) > 0"
proof -
  have "\<forall>x \<in> set (foldl trafficRow [] data). leads (snd x) > 0"
    by (rule foldl_invariant[where I = "\<lambda>m. \<forall>x \<in> set m. leads (snd x) > 0"]) (simp_all add: trafficRow_def addLead_pos)
  then show ?thesis
    by (auto simp: processAccountDataInternal_def Let_def trafficSourcePerformanceOf_def trafficRates_def split: prod.splits)
qed

lemma campaign_pos: "\<forall>x \<in> set (campaignPerformance (processAccountDataInternal P data)). leads (snd x) > 0"
proof -
  have "\<forall>x \<in> set (foldl campaignRow [] data). leads (snd x) > 0"
    by (rule foldl_invariant[where I = "\<lambda>m. \<forall>x \<in> set m. leads (snd x) > 0"]) (simp_all add: campaignRow_def addLead_pos Let_def)
  then show ?thesis
    by (simp add: processAccountDataInternal_def Let_def split: prod.splits)
qed

lemma geo_pos: "\<forall>x \<in> set (geographicDistribution (processAccountDataInternal P data)). leads (snd x) > 0"
proof -
  have "\<forall>x \<in> set (foldl geoRow [] data). leads (snd x) > 0"
    by (rule foldl_invariant[where I = "\<lambda>m. \<forall>x \<in> set m. leads (snd x) > 0"]) (simp_all add: geoRow_def addLead_pos Let_def)
  then show ?thesis
    by (simp add: processAccountDataInternal_def Let_def split: prod.splits)
qed

lemma landingRow_pos:
  "\<forall>x \<in> set m. leads (snd x) > 0 \<Longrightarrow> \<forall>x \<in> set (landingRow P m r). leads (snd x) > 0"
  by (auto simp: landingRow_def Let_def dest!: set_setOwn_cases)

lemma landing_pos: "\<forall>x \<in> set (landingPagePerformance (processAccountDataInternal P data)). leads (snd x) > 0"
proof -
  have "\<forall>x \<in> set (foldl (landingRow P) [] data). leads (snd x) > 0"
    by (rule foldl_invariant[where I = "\<lambda>m. \<forall>x \<in> set m. leads (snd x) > 0"]) (simp_all add: landingRow_pos)
  then show ?thesis
    by (auto simp: processAccountDataInternal_def Let_def landingRates_def split: prod.splits)
qed

lemma allAccounts_unchanged: "allAccounts (processAccountDataInternal P data) = data"
proof -
  have "allAccounts (fst (mainRow P st row)) = allAccounts (fst st)" for st row
    by (cases st) (simp add: Let_def)
  then have "allAccounts (fst (foldl (mainRow P) st data)) = allAccounts (fst st)" for st
    by (induction data arbitrary: st) simp_all
  then show ?thesis by (simp add: processed_main_fields initialProcessed_def)
qed

subsection \<open>The input is not disturbed\<close>

lemma rankingOnStore_frame:
  assumes "r < length h"
  shows "case rankingOnStore h r of (h', topRef, leastRef) \<Rightarrow>
           take (length h) h' = h
           \<and> h' ! topRef = take 5 (sortedAccountsOf (h ! r))
           \<and> h' ! leastRef = leastPerformingOf (sortedAccountsOf (h ! r))"
  using assms
  by (simp add: rankingOnStore_def spread_def alloc_def sortInPlace_def sliceHeadNew_def
      filterNew_def sliceLastNew_def reverseInPlace_def concatNew_def sortedAccountsOf_def
      leastPerformingOf_def Let_def nth_append)

lemma processed_ranking:
  "topPerformingAccounts (processAccountDataInternal P data) = take 5 (sortedAccountsOf data)"
  "leastPerformingAccounts (processAccountDataInternal P data) = leastPerformingOf (sortedAccountsOf data)"
  by (simp_all add: processAccountDataInternal_def Let_def split: prod.splits)

text \<open>
  C9: the field \<open>allAccounts\<close> of the snapshot is the input, in its order. On the store,
  where \<open>allAccounts\<close> is the array at the address of the input, the ranking leaves that
  array and every other array that was there as it was: it sorts and reverses arrays of
  its own, whose contents are the two ranked lists of the snapshot.
\<close>

theorem allAccounts_is_input:
  "allAccounts (processAccountDataInternal P data) = data \<and>
   (\<forall>h r. r < length h \<and> h ! r = data \<longrightarrow>
      (case rankingOnStore h r of (h', topRef, leastRef) \<Rightarrow>
         h' ! r = data \<and> take (length h) h' = h
         \<and> h' ! topRef = topPerformingAccounts (processAccountDataInternal P data)
         \<and> h' ! leastRef = leastPerformingAccounts (processAccountDataInternal P data)))"
proof (intro conjI allI impI)
  show "allAccounts (processAccountDataInternal P data) = data" by (rule allAccounts_unchanged)
next
  fix h :: "AccountData store" and r
  assume a: "r < length h \<and> h ! r = data"
  obtain h' topRef leastRef where e: "rankingOnStore h r = (h', topRef, leastRef)"
    by (cases "rankingOnStore h r") auto
  from a rankingOnStore_frame[of r h] e
  have f: "take (length h) h' = h" "h' ! topRef = take 5 (sortedAccountsOf data)"
    "h' ! leastRef = leastPerformingOf (sortedAccountsOf data)" by auto
  from a f(1) have "h' ! r = data"
    by (metis nth_take)
  with f show "case rankingOnStore h r of (h', topRef, leastRef) \<Rightarrow>
         h' ! r = data \<and> take (length h) h' = h
         \<and> h' ! topRef = topPerformingAccounts (processAccountDataInternal P data)
         \<and> h' ! leastRef = leastPerformingAccounts (processAccountDataInternal P data)"
    by (simp add: e processed_ranking)
qed

text \<open>The theorem on a store that holds two accounts, out of order, at address 0.\<close>

theorem allAccounts_is_input_witness:
  "((0::nat) < length [sampleData] \<and> [sampleData] ! 0 = sampleData) \<and>
   (case rankingOnStore [sampleData] 0 of
      (h', topRef, leastRef) \<Rightarrow>
        h' ! 0 = sampleData \<and> take (length [sampleData]) h' = [sampleData]
        \<and> h' ! topRef = topPerformingAccounts (processAccountDataInternal platform0 sampleData)
        \<and> h' ! leastRef = leastPerformingAccounts (processAccountDataInternal platform0 sampleData)) \<and>
   allAccounts (processAccountDataInternal platform0 sampleData) = sampleData"
proof -
  note T = allAccounts_is_input[of platform0 sampleData]
  have h: "(0::nat) < length [sampleData] \<and> [sampleData] ! 0 = sampleData" by simp
  from T[THEN conjunct2, THEN spec, THEN spec, THEN mp, OF h] T[THEN conjunct1] h
  show ?thesis by blast
qed

lemmas char_defs = isDigit_def isSpace_def isUpper_def isLower_def isWord_def code_def
lemmas num_defs = parseCurrency_def parseFloat_def scanDecimal_def scanUnsigned_def
  scanExponent_def digitsVal_def pow10_def negate_def

text \<open>The binade of a value that lies between two powers of 2.\<close>

lemma binadeFrom_normal:
  assumes "- 1022 \<le> e" "e \<le> int n - 1022" "power_int 2 e \<le> a" "a < power_int 2 (e + 1)"
  shows "binadeFrom n a = e"
  using assms
proof (induction n)
  case 0
  then show ?case by simp
next
  case (Suc n)
  show ?case
  proof (cases "e = int (Suc n) - 1022")
    case True
    with Suc.prems show ?thesis by simp
  next
    case False
    with Suc.prems have le: "e \<le> int n - 1022" by simp
    then have "e + 1 \<le> int (Suc n) - 1022" by simp
    then have "power_int (2::real) (e + 1) \<le> power_int 2 (int (Suc n) - 1022)"
      by (intro power_int_increasing) simp_all
    with Suc.prems have "\<not> power_int 2 (int (Suc n) - 1022) \<le> a" by linarith
    with Suc.IH[OF Suc.prems(1) le Suc.prems(3,4)] show ?thesis by simp
  qed
qed

lemma binade_normal:
  assumes "(2::real) ^ k \<le> \<bar>v\<bar>" "\<bar>v\<bar> < 2 ^ Suc k" "k \<le> 1023"
  shows "binade v = int k"
  unfolding binade_def
proof (rule binadeFrom_normal)
  show "- 1022 \<le> int k" by simp
  show "int k \<le> int 2045 - 1022" using assms(3) by simp
  show "power_int 2 (int k) \<le> \<bar>v\<bar>" using assms(1) by simp
  have "power_int (2::real) (int k + 1) = 2 ^ Suc k"
    by (simp add: power_int_add)
  with assms(2) show "\<bar>v\<bar> < power_int 2 (int k + 1)" by simp
qed

lemma nearestEven_of_int: "nearestEven (of_int z) = z"
  by (simp add: nearestEven_def)

text \<open>An integer below 2^53 is a double.\<close>

lemma of_int_binade:
  assumes "n \<noteq> 0"
  obtains k where "(2::real) ^ k \<le> \<bar>of_int n\<bar>" "\<bar>of_int n :: real\<bar> < 2 ^ Suc k"
proof -
  from assms have "1 \<le> nat \<bar>n\<bar>" by simp
  from ex_power_ivl1[OF _ this, of 2] obtain k where
    k: "2 ^ k \<le> nat \<bar>n\<bar>" "nat \<bar>n\<bar> < 2 ^ (k + 1)" by auto
  have r: "real (nat \<bar>n\<bar>) = \<bar>of_int n\<bar>" by simp
  from k(1) have "real (2 ^ k) \<le> real (nat \<bar>n\<bar>)" by (simp only: of_nat_le_iff)
  then have lo: "(2::real) ^ k \<le> \<bar>of_int n\<bar>" unfolding r by simp
  from k(2) have "real (nat \<bar>n\<bar>) < real (2 ^ (k + 1))" by (simp only: of_nat_less_iff)
  then have hi: "\<bar>of_int n :: real\<bar> < 2 ^ Suc k" unfolding r by simp
  from lo hi show ?thesis by (rule that)
qed

text \<open>An integer below 2^53 is a double.\<close>

lemma roundDouble_of_int:
  assumes "\<bar>n\<bar> < 2 ^ 53"
  shows "roundDouble (of_int n) = Fin (of_int n)"
proof (cases "n = 0")
  case True
  have "nearestEven 0 = 0" by (simp add: nearestEven_def)
  with True show ?thesis by (simp add: roundDouble_def Let_def)
next
  case False
  then obtain k where lo: "(2::real) ^ k \<le> \<bar>of_int n\<bar>" and hi: "\<bar>of_int n :: real\<bar> < 2 ^ Suc k"
    by (rule of_int_binade)
  from assms have "\<bar>of_int n :: real\<bar> < 2 ^ 53"
    by (metis of_int_abs of_int_less_iff of_int_numeral of_int_power)
  with lo have "(2::real) ^ k < 2 ^ 53" by linarith
  then have k53: "k < 53"
    using power_strict_increasing_iff[of "2::real" k 53] by simp
  then have b: "binade (of_int n) = int k"
    using binade_normal[OF lo hi] by simp
  have u: "ulp (of_int n) = 1 / 2 ^ (52 - k)"
  proof -
    have "int k - 52 = - int (52 - k)" using k53 by simp
    then have "power_int (2::real) (int k - 52) = inverse (2 ^ (52 - k))"
      by (simp only: power_int_minus power_int_of_nat)
    then show ?thesis by (simp add: ulp_def b inverse_eq_divide)
  qed
  have "of_int n / ulp (of_int n) = (of_int (n * 2 ^ (52 - k)) :: real)"
    by (simp add: u)
  then have ne: "nearestEven (of_int n / ulp (of_int n)) = n * 2 ^ (52 - k)"
    by (simp only: nearestEven_of_int)
  have q: "of_int (nearestEven (of_int n / ulp (of_int n))) * ulp (of_int n) = (of_int n :: real)"
    by (simp only: ne) (simp add: u)
  have "\<bar>of_int n :: real\<bar> < 2 ^ 1024"
    using \<open>\<bar>of_int n :: real\<bar> < 2 ^ 53\<close> power_strict_increasing[of 53 1024 "2::real"] by linarith
  then show ?thesis
    unfolding roundDouble_def Let_def q by (simp only: not_le[symmetric] if_False) 
qed

lemma roundDouble_numeral:
  "numeral w < (2::int) ^ 53 \<Longrightarrow> roundDouble (numeral w) = Fin (numeral w)"
  "numeral w < (2::int) ^ 53 \<Longrightarrow> roundDouble (- numeral w) = Fin (- numeral w)"
  "roundDouble 0 = Fin 0" "roundDouble 1 = Fin 1"
  using roundDouble_of_int[of "numeral w"] roundDouble_of_int[of "- numeral w"]
    roundDouble_of_int[of 0] roundDouble_of_int[of 1]
  by simp_all

text \<open>A value next to 1e12 is rounded to it.\<close>

lemma roundDouble_near_1e12:
  "roundDouble (1000000000000 + 1 / 100000) = Fin 1000000000000"
proof -
  define v :: real where "v = 1000000000000 + 1 / 100000"
  have b: "binade v = int 39"
    by (rule binade_normal) (simp_all add: v_def)
  have u: "ulp v = 1 / 8192"
    by (simp add: ulp_def b power_int_def power_one_over)
  have q: "v / ulp v = 8192000000000000 + 8192 / 100000"
    unfolding u by (simp add: v_def)
  have f: "\<lfloor>v / ulp v\<rfloor> = 8192000000000000"
    unfolding q by (simp add: floor_eq_iff)
  have "nearestEven (v / ulp v) = 8192000000000000"
    unfolding nearestEven_def Let_def f q by simp
  then have "roundDouble v = Fin 1000000000000"
    unfolding roundDouble_def Let_def u by simp
  then show ?thesis by (simp only: v_def)
qed

lemma parse_500: "parseCurrency ''500'' = 500"
  by (simp add: num_defs char_defs roundDouble_numeral)

lemma brand_Foo_Corp: "extractBrandFromAccountNameHS ''Foo Corp'' = ''Foo''"
  by code_simp

lemma state_Columbus: "stateMatch ''123 Main St, Columbus, OH 43215'' = Some ''OH''"
  by code_simp

lemma source_rich: "sourceOf (richAccount ts) = ''Organic Search''"
  by (simp add: sourceOf_def richAccount_def orElse_def) code_simp

lemma trim_Spring: "trim ''Spring'' = ''Spring''" by code_simp
lemma trim_pricing: "trim ''/pricing'' = ''/pricing''" by code_simp
lemma lower_customer: "toLowerCase ''customer'' = ''customer''" by code_simp

text \<open>The first entry of a rollup, and the keys of the sample accounts.\<close>

lemma setOwn_first: "setOwn k v [] = [(k, v)]"
  by (simp add: setOwn_def)

lemma addSale_first:
  "k \<notin> set inheritedKeys \<Longrightarrow> addSale k v [] = [(k, \<lparr>sales = v, accounts = 1\<rparr>)]"
  by (simp add: addSale_def setOwn_first)

lemma addLead_first:
  "k \<notin> set inheritedKeys \<Longrightarrow>
   addLead fresh k v [] = [(k, fresh\<lparr>leads := leads fresh + 1, revenue := revenue fresh + v\<rparr>)]"
  by (simp add: addLead_def setOwn_first)

lemma countStage_first:
  "k \<notin> set inheritedKeys \<Longrightarrow> countStage k [] = [(k, Fin 1)]"
  by (auto simp: countStage_def setOwn_first inheritedKeys_def)

lemma sample_keys:
  "''Ann Lee'' \<notin> set inheritedKeys" "''Foo'' \<notin> set inheritedKeys"
  "''OH'' \<notin> set inheritedKeys" "''customer'' \<notin> set inheritedKeys"
  "''Organic Search'' \<notin> set inheritedKeys" "''Spring'' \<notin> set inheritedKeys"
  "''/pricing'' \<notin> set inheritedKeys" "''2025-01'' \<notin> set inheritedKeys"
  by code_simp+

lemma rich_main:
  "foldl (mainRow platform0) (initialProcessed d, 0, []) [richAccount ''500''] =
     ((initialProcessed d)
        \<lparr>lifecycleStageDistribution := [(''customer'', Fin 1)],
         salesByRep := [(''Ann Lee'', \<lparr>sales = 500, accounts = 1\<rparr>)],
         salesByBrand := [(''Foo'', \<lparr>sales = 500, accounts = 1\<rparr>)],
         salesDistribution :=
           [(''Negative'', 0), (''$0-$1K'', 1), (''$1K-$5K'', 0), (''$5K-$10K'', 0),
            (''$10K-$25K'', 0), (''$25K+'', 0)],
         topStates := [(''OH'', \<lparr>sales = 500, accounts = 1\<rparr>)]\<rparr>,
      500, [500])"
  by (simp add: richAccount_def parse_500 brand_Foo_Corp state_Columbus Let_def orElse_def
      addCount_def addSale_first countStage_first sample_keys salesBand_def initialProcessed_def
      platform0_def)

lemma rich_rollups:
  "salesByRep (processAccountDataInternal platform0 [richAccount ''500'']) = [(''Ann Lee'', \<lparr>sales = 500, accounts = 1\<rparr>)]"
  "salesByBrand (processAccountDataInternal platform0 [richAccount ''500'']) = [(''Foo'', \<lparr>sales = 500, accounts = 1\<rparr>)]"
  "topStates (processAccountDataInternal platform0 [richAccount ''500'']) = [(''OH'', \<lparr>sales = 500, accounts = 1\<rparr>)]"
  unfolding processed_main_fields rich_main by (simp_all add: initialProcessed_def)

lemma rich_traffic:
  "map fst (trafficSourcePerformance (processAccountDataInternal platform0 [richAccount ''500''])) = [''Organic Search'']"
  by (simp add: processAccountDataInternal_def Let_def trafficSourcePerformanceOf_def trafficRow_def
      addLead_first sample_keys source_rich trafficRates_def split: prod.splits)

lemma rich_campaign:
  "map fst (campaignPerformance (processAccountDataInternal platform0 [richAccount ''500''])) = [''Spring'']"
  by (simp add: processAccountDataInternal_def Let_def campaignRow_def addLead_first sample_keys
      orElse_def richAccount_def trim_Spring split: prod.splits)

lemma rich_landing:
  "map fst (landingPagePerformance (processAccountDataInternal platform0 [richAccount ''500''])) = [''/pricing'']"
  by (simp add: processAccountDataInternal_def Let_def landingRow_def orElse_def setOwn_first
      sample_keys richAccount_def trim_pricing platform0_def landingRates_def split: prod.splits)

lemma salesBand_fixed:
  "salesBand v \<in> set [''Negative'', ''$0-$1K'', ''$1K-$5K'', ''$5K-$10K'', ''$10K-$25K'', ''$25K+'']"
  by (simp add: salesBand_def)

lemma salesDistribution_keys:
  "map fst (salesDistribution (processAccountDataInternal P data)) =
     [''Negative'', ''$0-$1K'', ''$1K-$5K'', ''$5K-$10K'', ''$10K-$25K'', ''$25K+'']"
proof -
  have "map fst (salesDistribution (fst (initialProcessed data, 0::real, []::real list))) =
      [''Negative'', ''$0-$1K'', ''$1K-$5K'', ''$5K-$10K'', ''$10K-$25K'', ''$25K+'']"
    by (simp add: initialProcessed_def)
  then show ?thesis
    unfolding processed_salesDistribution foldl_mainRow_salesDistribution
    by (rule foldl_count_keys[OF allI[OF salesBand_fixed]])
qed

lemma salesDistribution_counts:
  assumes "k \<in> set [''Negative'', ''$0-$1K'', ''$1K-$5K'', ''$5K-$10K'', ''$10K-$25K'', ''$25K+'']"
  shows "map_of (salesDistribution (processAccountDataInternal P data)) k =
     Some (length (filter (\<lambda>row. validRow row \<and> salesBand (parseCurrency (totalSales row)) = k) data))"
  using assms
  by (auto simp add: processed_salesDistribution foldl_mainRow_salesDistribution foldl_count_map_of
    initialProcessed_def)

text \<open>
  C10: the keys of \<open>salesDistribution\<close> are the six bands, whatever the input; the count
  of a band is the number of valid rows in it, so a band without rows has the count 0.
  The rollups that are filled on demand hold no entry with the count 0.
\<close>

theorem salesDistribution_six_keys:
  "map fst (salesDistribution (processAccountDataInternal P data)) =
     [''Negative'', ''$0-$1K'', ''$1K-$5K'', ''$5K-$10K'', ''$10K-$25K'', ''$25K+'']
   \<and> (\<forall>k \<in> set [''Negative'', ''$0-$1K'', ''$1K-$5K'', ''$5K-$10K'', ''$10K-$25K'', ''$25K+''].
         map_of (salesDistribution (processAccountDataInternal P data)) k =
           Some (length (filter (\<lambda>row. validRow row
                                    \<and> salesBand (parseCurrency (totalSales row)) = k) data)))
   \<and> (\<forall>x \<in> set (salesByRep (processAccountDataInternal P data)). accounts (snd x) > 0)
   \<and> (\<forall>x \<in> set (salesByBrand (processAccountDataInternal P data)). accounts (snd x) > 0)
   \<and> (\<forall>x \<in> set (topStates (processAccountDataInternal P data)). accounts (snd x) > 0)
   \<and> (\<forall>x \<in> set (trafficSourcePerformance (processAccountDataInternal P data)). leads (snd x) > 0)
   \<and> (\<forall>x \<in> set (campaignPerformance (processAccountDataInternal P data)). leads (snd x) > 0)
   \<and> (\<forall>x \<in> set (landingPagePerformance (processAccountDataInternal P data)). leads (snd x) > 0)"
  using salesDistribution_keys[of P data] salesDistribution_counts[of _ P data]
    rollups_pos_main[of P data] traffic_pos[of P data] campaign_pos[of P data] landing_pos[of P data]
  by blast

text \<open>
  The theorem on the empty input, where every band is there with the count 0, and on one
  account, which is in one band and makes an entry in each of the rollups.
\<close>

theorem salesDistribution_six_keys_witness:
  "salesDistribution (processAccountDataInternal platform0 []) =
     [(''Negative'', 0), (''$0-$1K'', 0), (''$1K-$5K'', 0), (''$5K-$10K'', 0),
      (''$10K-$25K'', 0), (''$25K+'', 0)]
   \<and> map_of (salesDistribution (processAccountDataInternal platform0 [richAccount ''500''])) ''$0-$1K''
       = Some 1
   \<and> map_of (salesDistribution (processAccountDataInternal platform0 [richAccount ''500''])) ''$25K+''
       = Some 0
   \<and> (''Ann Lee'', \<lparr>sales = 500, accounts = 1\<rparr>)
         \<in> set (salesByRep (processAccountDataInternal platform0 [richAccount ''500'']))
   \<and> salesByBrand (processAccountDataInternal platform0 [richAccount ''500'']) \<noteq> []
   \<and> topStates (processAccountDataInternal platform0 [richAccount ''500'']) \<noteq> []
   \<and> trafficSourcePerformance (processAccountDataInternal platform0 [richAccount ''500'']) \<noteq> []
   \<and> campaignPerformance (processAccountDataInternal platform0 [richAccount ''500'']) \<noteq> []
   \<and> landingPagePerformance (processAccountDataInternal platform0 [richAccount ''500'']) \<noteq> []"
proof -
  note T = salesDistribution_six_keys[of platform0 "[richAccount ''500'']"]
  have v: "validRow (richAccount ''500'')"
    by (simp add: validRow_def richAccount_def parse_500)
  have b: "salesBand (parseCurrency (totalSales (richAccount ''500''))) = ''$0-$1K''"
    by (simp add: richAccount_def parse_500 salesBand_def)
  have e: "salesDistribution (processAccountDataInternal platform0 []) =
     [(''Negative'', 0), (''$0-$1K'', 0), (''$1K-$5K'', 0), (''$5K-$10K'', 0),
      (''$10K-$25K'', 0), (''$25K+'', 0)]"
    by (simp add: processed_salesDistribution initialProcessed_def)
  have c1: "map_of (salesDistribution (processAccountDataInternal platform0 [richAccount ''500''])) ''$0-$1K'' = Some 1"
    using T[THEN conjunct2, THEN conjunct1, THEN bspec, of "''$0-$1K''"] v b by simp
  have c2: "map_of (salesDistribution (processAccountDataInternal platform0 [richAccount ''500''])) ''$25K+'' = Some 0"
    using T[THEN conjunct2, THEN conjunct1, THEN bspec, of "''$25K+''"] v b by simp
  have n: "trafficSourcePerformance (processAccountDataInternal platform0 [richAccount ''500'']) \<noteq> []"
    "campaignPerformance (processAccountDataInternal platform0 [richAccount ''500'']) \<noteq> []"
    "landingPagePerformance (processAccountDataInternal platform0 [richAccount ''500'']) \<noteq> []"
    using rich_traffic rich_campaign rich_landing by auto
  show ?thesis
    using e c1 c2 n by (simp add: rich_rollups)
qed

subsection \<open>Rep and brand rollups\<close>

lemma sum_update:
  fixes f :: "'v \<Rightarrow> nat"
  shows "distinct (map fst m) \<Longrightarrow>
    sum_list (map (\<lambda>x. f (snd x)) (AList.update k v m))
      + (case map_of m k of None \<Rightarrow> 0 | Some b \<Rightarrow> f b)
    = sum_list (map (\<lambda>x. f (snd x)) m) + f v"
proof (induction m)
  case Nil
  then show ?case by simp
next
  case (Cons p m)
  then show ?case
    by (cases p) (auto simp: map_of_eq_None_iff[THEN iffD2] split: option.splits)
qed

lemma sum_insertIndex:
  fixes f :: "'v \<Rightarrow> nat"
  shows "sum_list (map (\<lambda>x. f (snd x)) (insertIndex k v m))
           = sum_list (map (\<lambda>x. f (snd x)) m) + f v"
  by (induction m) auto

lemma sum_setOwn:
  fixes f :: "'v \<Rightarrow> nat"
  assumes "distinct (map fst m)"
  shows "sum_list (map (\<lambda>x. f (snd x)) (setOwn k v m))
           + (case map_of m k of None \<Rightarrow> 0 | Some b \<Rightarrow> f b)
         = sum_list (map (\<lambda>x. f (snd x)) m) + f v"
proof (cases "map_of m k = None \<and> isArrayIndex k")
  case True
  then show ?thesis by (simp add: setOwn_def sum_insertIndex)
next
  case False
  then have "setOwn k v m = AList.update k v m" by (auto simp: setOwn_def)
  with sum_update[OF assms, of f k v] show ?thesis by simp
qed

lemma addSale_inherited: "k \<in> set inheritedKeys \<Longrightarrow> addSale k v m = m"
  by (simp add: addSale_def)

lemma addSale_distinct: "distinct (map fst m) \<Longrightarrow> distinct (map fst (addSale k v m))"
  by (simp add: addSale_def Let_def distinct_setOwn)

lemma addSale_sum:
  assumes d: "distinct (map fst m)" and k: "k \<notin> set inheritedKeys"
  shows "sum_list (map (\<lambda>x. accounts (snd x)) (addSale k v m))
           = sum_list (map (\<lambda>x. accounts (snd x)) m) + 1"
proof (cases "map_of m k")
  case None
  with sum_setOwn[OF d, of accounts k "\<lparr>sales = 0 + v, accounts = 0 + 1\<rparr>"] k
  show ?thesis by (simp add: addSale_def)
next
  case (Some b)
  with sum_setOwn[OF d, of accounts k "b\<lparr>sales := sales b + v, accounts := accounts b + 1\<rparr>"] k
  show ?thesis by (simp add: addSale_def)
qed

lemma map_of_addSale:
  "k \<notin> set inheritedKeys \<Longrightarrow>
   map_of (addSale k v m) k' =
     (if k' = k then
        Some (case map_of m k of None \<Rightarrow> \<lparr>sales = v, accounts = 1\<rparr>
              | Some b \<Rightarrow> \<lparr>sales = sales b + v, accounts = accounts b + 1\<rparr>)
      else map_of m k')"
  by (simp add: addSale_def Let_def map_of_setOwn split: option.splits)

text \<open>
  A rollup that is filled by \<open>addSale\<close> over the rows that pass a test. The rows that
  count are those whose key is not inherited.
\<close>

lemma foldl_addSale_distinct:
  "distinct (map fst m) \<Longrightarrow>
   distinct (map fst (foldl (\<lambda>m r. if p r then addSale (key r) (val r) m else m) m rows))"
  by (induction rows arbitrary: m) (simp_all add: addSale_distinct)

lemma foldl_addSale_sum:
  "distinct (map fst m) \<Longrightarrow>
   sum_list (map (\<lambda>x. accounts (snd x)) (foldl (\<lambda>m r. if p r then addSale (key r) (val r) m else m) m rows))
     = sum_list (map (\<lambda>x. accounts (snd x)) m)
       + length (filter (\<lambda>r. p r \<and> key r \<notin> set inheritedKeys) rows)"
proof (induction rows arbitrary: m)
  case Nil
  then show ?case by simp
next
  case (Cons r rows)
  show ?case
  proof (cases "p r \<and> key r \<notin> set inheritedKeys")
    case True
    with Cons.prems Cons.IH[of "addSale (key r) (val r) m"] show ?thesis
      by (simp add: addSale_distinct addSale_sum)
  next
    case False
    then have "(if p r then addSale (key r) (val r) m else m) = m"
      by (auto simp: addSale_inherited)
    with False Cons.prems Cons.IH[of m] show ?thesis
      by (simp del: foldl_Cons add: foldl_Cons[of _ m r rows])
  qed
qed

lemma foldl_addSale_count:
  assumes "k \<notin> set inheritedKeys"
  shows "map_option accounts
           (map_of (foldl (\<lambda>m r. if p r then addSale (key r) (val r) m else m) m rows) k) =
     (let n = length (filter (\<lambda>r. p r \<and> key r = k) rows)
      in case map_of m k of
           None \<Rightarrow> if n = 0 then None else Some n
         | Some b \<Rightarrow> Some (accounts b + n))"
proof (induction rows arbitrary: m)
  case Nil
  then show ?case by (simp split: option.splits)
next
  case (Cons r rows)
  show ?case
  proof (cases "p r")
    case False
    with Cons.IH[of m] show ?thesis by simp
  next
    case True
    show ?thesis
    proof (cases "key r \<in> set inheritedKeys")
      case True
      with assms have "key r \<noteq> k" by auto
      with True \<open>p r\<close> Cons.IH[of m] show ?thesis by (simp add: addSale_inherited)
    next
      case False
      with \<open>p r\<close> Cons.IH[of "addSale (key r) (val r) m"] show ?thesis
        by (simp add: map_of_addSale Let_def split: option.splits)
    qed
  qed
qed

lemma mainRow_salesByRep:
  "salesByRep (fst (mainRow P st row)) =
     (if validRow row then addSale (repKey row) (parseCurrency (totalSales row)) (salesByRep (fst st))
      else salesByRep (fst st))"
  by (cases st) (simp add: validRow_def repKey_def Let_def)

lemma mainRow_salesByBrand:
  "salesByBrand (fst (mainRow P st row)) =
     (if validRow row
      then addSale (extractBrandFromAccountNameHS (accountName row)) (parseCurrency (totalSales row))
             (salesByBrand (fst st))
      else salesByBrand (fst st))"
  by (cases st) (simp add: validRow_def Let_def)

lemma foldl_mainRow_salesByRep:
  "salesByRep (fst (foldl (mainRow P) st data)) =
     foldl (\<lambda>m row. if validRow row then addSale (repKey row) (parseCurrency (totalSales row)) m else m)
       (salesByRep (fst st)) data"
  by (induction data arbitrary: st) (simp_all add: mainRow_salesByRep)

lemma foldl_mainRow_salesByBrand:
  "salesByBrand (fst (foldl (mainRow P) st data)) =
     foldl (\<lambda>m row. if validRow row
                     then addSale (extractBrandFromAccountNameHS (accountName row))
                            (parseCurrency (totalSales row)) m
                     else m)
       (salesByBrand (fst st)) data"
  by (induction data arbitrary: st) (simp_all add: mainRow_salesByBrand)

lemma salesByRep_fold:
  "salesByRep (processAccountDataInternal P data) =
     foldl (\<lambda>m row. if validRow row then addSale (repKey row) (parseCurrency (totalSales row)) m else m)
       [] data"
  by (simp add: processed_main_fields foldl_mainRow_salesByRep initialProcessed_def)

lemma salesByBrand_fold:
  "salesByBrand (processAccountDataInternal P data) =
     foldl (\<lambda>m row. if validRow row
                     then addSale (extractBrandFromAccountNameHS (accountName row))
                            (parseCurrency (totalSales row)) m
                     else m)
       [] data"
  by (simp add: processed_main_fields foldl_mainRow_salesByBrand initialProcessed_def)

lemma parse_2e12: "parseCurrency ''2000000000000'' = 2000000000000"
  by (simp add: num_defs char_defs roundDouble_numeral)

lemma invalid_2e12: "\<not> validRow (account0 nm ''2000000000000'')"
  by (simp add: validRow_def account0_def parse_2e12)

text \<open>
  The guard works on the double that the text denotes: 1000000000000.00001 is read as
  1e12 and passes.
\<close>

lemma parse_near_1e12: "parseCurrency ''1000000000000.00001'' = 1000000000000"
proof -
  have "roundDouble (100000000000000001 / 100000) = Fin 1000000000000"
    using roundDouble_near_1e12 by simp
  then show ?thesis
    by (simp add: num_defs char_defs)
qed

lemma valid_near_1e12: "validRow (account0 nm ''1000000000000.00001'')"
  by (simp add: validRow_def account0_def parse_near_1e12)

text \<open>
  C2, as stated, fails: an account whose value is beyond 1e12 is in \<open>allAccounts\<close> and
  in no bucket of \<open>salesByRep\<close>.
\<close>

theorem rollups_cover_allAccounts_counterexample:
  "sum_list (map (accounts \<circ> snd)
      (salesByRep (processAccountDataInternal platform0 [account0 ''A'' ''2000000000000''])))
   \<noteq> length (allAccounts (processAccountDataInternal platform0 [account0 ''A'' ''2000000000000'']))"
  by (simp add: salesByRep_fold invalid_2e12 allAccounts_unchanged)

text \<open>
  An account whose rep name is the name of a member of \<^verbatim>\<open>Object.prototype\<close> gets no
  bucket either, whatever its value: the test for a missing bucket finds the member.
\<close>

lemma inherited_rep_no_bucket:
  "repKey r \<in> set inheritedKeys \<Longrightarrow> salesByRep (processAccountDataInternal P [r]) = []"
  by (simp add: salesByRep_fold addSale_inherited)

text \<open>
  C2, amended: the accounts of \<open>allAccounts\<close> that pass the guard of the first loop
  (the magnitude of the value, as a double, is at most 1e12) are the ones that the rep
  and brand rollups count, each under one key. For a key that is not the name of a
  member of \<^verbatim>\<open>Object.prototype\<close> the bucket holds the number of valid rows with that
  key, and there is no bucket when there is no such row. When no valid row has such a
  name as its key, the counts of all buckets of a rollup add up to the number of valid
  rows.
\<close>

theorem rollups_cover_valid_accounts:
  "allAccounts (processAccountDataInternal P data) = data
   \<and> distinct (map fst (salesByRep (processAccountDataInternal P data)))
   \<and> distinct (map fst (salesByBrand (processAccountDataInternal P data)))
   \<and> (\<forall>k. k \<notin> set inheritedKeys \<longrightarrow>
         map_option accounts (map_of (salesByRep (processAccountDataInternal P data)) k) =
           (let n = length (filter (\<lambda>r. validRow r \<and> repKey r = k) data)
            in if n = 0 then None else Some n))
   \<and> (\<forall>k. k \<notin> set inheritedKeys \<longrightarrow>
         map_option accounts (map_of (salesByBrand (processAccountDataInternal P data)) k) =
           (let n = length (filter (\<lambda>r. validRow r
                                     \<and> extractBrandFromAccountNameHS (accountName r) = k) data)
            in if n = 0 then None else Some n))
   \<and> ((\<forall>r \<in> set data. validRow r \<longrightarrow> repKey r \<notin> set inheritedKeys) \<longrightarrow>
         sum_list (map (\<lambda>x. accounts (snd x)) (salesByRep (processAccountDataInternal P data)))
           = length (filter validRow data))
   \<and> ((\<forall>r \<in> set data. validRow r
           \<longrightarrow> extractBrandFromAccountNameHS (accountName r) \<notin> set inheritedKeys) \<longrightarrow>
         sum_list (map (\<lambda>x. accounts (snd x)) (salesByBrand (processAccountDataInternal P data)))
           = length (filter validRow data))"
proof (intro conjI allI impI)
  show "allAccounts (processAccountDataInternal P data) = data"
    by (rule allAccounts_unchanged)
  show "distinct (map fst (salesByRep (processAccountDataInternal P data)))"
    unfolding salesByRep_fold by (rule foldl_addSale_distinct) simp
  show "distinct (map fst (salesByBrand (processAccountDataInternal P data)))"
    unfolding salesByBrand_fold by (rule foldl_addSale_distinct) simp
next
  fix k :: string
  assume "k \<notin> set inheritedKeys"
  then show "map_option accounts (map_of (salesByRep (processAccountDataInternal P data)) k) =
           (let n = length (filter (\<lambda>r. validRow r \<and> repKey r = k) data)
            in if n = 0 then None else Some n)"
    unfolding salesByRep_fold by (simp add: foldl_addSale_count)
next
  fix k :: string
  assume "k \<notin> set inheritedKeys"
  then show "map_option accounts (map_of (salesByBrand (processAccountDataInternal P data)) k) =
           (let n = length (filter (\<lambda>r. validRow r
                                     \<and> extractBrandFromAccountNameHS (accountName r) = k) data)
            in if n = 0 then None else Some n)"
    unfolding salesByBrand_fold by (simp add: foldl_addSale_count)
next
  assume a: "\<forall>r \<in> set data. validRow r \<longrightarrow> repKey r \<notin> set inheritedKeys"
  then have "filter (\<lambda>r. validRow r \<and> repKey r \<notin> set inheritedKeys) data = filter validRow data"
    by (intro filter_cong) auto
  then show "sum_list (map (\<lambda>x. accounts (snd x)) (salesByRep (processAccountDataInternal P data)))
           = length (filter validRow data)"
    unfolding salesByRep_fold by (simp add: foldl_addSale_sum)
next
  assume a: "\<forall>r \<in> set data. validRow r
           \<longrightarrow> extractBrandFromAccountNameHS (accountName r) \<notin> set inheritedKeys"
  then have "filter (\<lambda>r. validRow r
                 \<and> extractBrandFromAccountNameHS (accountName r) \<notin> set inheritedKeys) data
             = filter validRow data"
    by (intro filter_cong) auto
  then show "sum_list (map (\<lambda>x. accounts (snd x)) (salesByBrand (processAccountDataInternal P data)))
           = length (filter validRow data)"
    unfolding salesByBrand_fold by (simp add: foldl_addSale_sum)
qed

text \<open>
  The amended statement on two accounts: the first is valid, with the rep \<^verbatim>\<open>Ann Lee\<close>
  and the brand \<^verbatim>\<open>Foo\<close>, the second is beyond 1e12.
\<close>

theorem rollups_cover_valid_accounts_witness:
  "repKey (richAccount ''500'') = ''Ann Lee''
   \<and> ''Ann Lee'' \<notin> set inheritedKeys
   \<and> validRow (richAccount ''500'')
   \<and> \<not> validRow (account0 ''A'' ''2000000000000'')
   \<and> length (allAccounts (processAccountDataInternal platform0
        [richAccount ''500'', account0 ''A'' ''2000000000000''])) = 2
   \<and> map_option accounts (map_of (salesByRep (processAccountDataInternal platform0
        [richAccount ''500'', account0 ''A'' ''2000000000000''])) ''Ann Lee'') = Some 1
   \<and> sum_list (map (accounts \<circ> snd) (salesByRep (processAccountDataInternal platform0
        [richAccount ''500'', account0 ''A'' ''2000000000000'']))) = 1
   \<and> sum_list (map (accounts \<circ> snd) (salesByBrand (processAccountDataInternal platform0
        [richAccount ''500'', account0 ''A'' ''2000000000000'']))) = 1"
proof -
  let ?d = "[richAccount ''500'', account0 ''A'' ''2000000000000'']"
  note T = rollups_cover_valid_accounts[of platform0 ?d]
  have v: "validRow (richAccount ''500'')"
    by (simp add: validRow_def richAccount_def parse_500)
  have r: "repKey (richAccount ''500'') = ''Ann Lee''"
    by (simp add: repKey_def richAccount_def)
  have b: "extractBrandFromAccountNameHS (accountName (richAccount ''500'')) = ''Foo''"
    by (simp add: richAccount_def brand_Foo_Corp)
  have hr: "\<forall>r \<in> set ?d. validRow r \<longrightarrow> repKey r \<notin> set inheritedKeys"
    by (simp add: invalid_2e12 r sample_keys)
  have hb: "\<forall>r \<in> set ?d. validRow r
      \<longrightarrow> extractBrandFromAccountNameHS (accountName r) \<notin> set inheritedKeys"
    by (simp add: invalid_2e12 b sample_keys)
  have 1: "length (allAccounts (processAccountDataInternal platform0 ?d)) = 2"
    using T[THEN conjunct1] by simp
  have 2: "map_option accounts (map_of (salesByRep (processAccountDataInternal platform0 ?d))
      ''Ann Lee'') = Some 1"
    using T[THEN conjunct2, THEN conjunct2, THEN conjunct2, THEN conjunct1, THEN spec,
        THEN mp, OF sample_keys(1)]
    by (simp add: v r invalid_2e12)
  have 3: "sum_list (map (accounts \<circ> snd) (salesByRep (processAccountDataInternal platform0 ?d))) = 1"
    using T[THEN conjunct2, THEN conjunct2, THEN conjunct2, THEN conjunct2, THEN conjunct2,
        THEN conjunct1, THEN mp, OF hr]
    by (simp add: v invalid_2e12 comp_def)
  have 4: "sum_list (map (accounts \<circ> snd) (salesByBrand (processAccountDataInternal platform0 ?d))) = 1"
    using T[THEN conjunct2, THEN conjunct2, THEN conjunct2, THEN conjunct2, THEN conjunct2,
        THEN conjunct2, THEN mp, OF hb]
    by (simp add: v invalid_2e12 comp_def)
  from r sample_keys(1) v invalid_2e12[of "''A''"] 1 2 3 4 show ?thesis by blast
qed

subsection \<open>Totals\<close>

lemma mainRow_totals:
  "fst (snd (mainRow P st row)) =
     (if validRow row then fst (snd st) + parseCurrency (totalSales row) else fst (snd st))"
  "snd (snd (mainRow P st row)) =
     (if validRow row \<and> parseCurrency (totalSales row) > 0 \<and> parseCurrency (totalSales row) < 10 ^ 12
      then snd (snd st) @ [parseCurrency (totalSales row)] else snd (snd st))"
  by (cases st; auto simp: validRow_def Let_def)+

lemma foldl_mainRow_total:
  "fst (snd (foldl (mainRow P) st data)) =
     fst (snd st) + sum_list (map (\<lambda>r. parseCurrency (totalSales r)) (filter validRow data))"
  by (induction data arbitrary: st) (simp_all add: mainRow_totals)

lemma foldl_mainRow_validSales:
  "snd (snd (foldl (mainRow P) st data)) =
     snd (snd st) @ filter (\<lambda>v. 0 < v \<and> v < 10 ^ 12) (map (\<lambda>r. parseCurrency (totalSales r)) data)"
proof (induction data arbitrary: st)
  case Nil
  then show ?case by simp
next
  case (Cons r data)
  show ?case
    unfolding foldl_Cons Cons.IH by (auto simp: mainRow_totals validRow_def)
qed

text \<open>
  The total revenue is the sum of the values of the rows that pass the guard, and the
  average deal size is the average of the values strictly between 0 and 1e12.
\<close>

lemma totalRevenue_valid_sum:
  "totalRevenue (processAccountDataInternal P data) =
     sum_list (map (\<lambda>r. parseCurrency (totalSales r)) (filter validRow data))"
  by (simp add: processed_main_fields foldl_mainRow_total)

lemma averageDealSize_valid_average:
  "averageDealSize (processAccountDataInternal P data) =
     calculateAverage (filter (\<lambda>v. 0 < v \<and> v < 10 ^ 12) (map (\<lambda>r. parseCurrency (totalSales r)) data))"
  by (simp add: processed_main_fields foldl_mainRow_validSales)

lemma foldl_plus: "foldl (\<lambda>acc v. acc + v) a xs = a + sum_list xs" for a :: real
  by (induction xs arbitrary: a) simp_all

lemma calculateAverage_pos:
  assumes "xs \<noteq> []" "\<forall>x \<in> set xs. 0 < x"
  shows "0 < calculateAverage xs"
proof -
  from assms have "0 < sum_list xs"
    by (cases xs) (auto intro: add_pos_nonneg sum_list_nonneg less_imp_le)
  with assms(1) show ?thesis
    by (simp add: calculateAverage_def foldl_plus)
qed

text \<open>
  Below the bound the average is positive: one account with a value strictly between
  0 and 1e12 is enough.
\<close>

lemma averageDealSize_pos_below_bound:
  assumes "r \<in> set data" "0 < parseCurrency (totalSales r)" "parseCurrency (totalSales r) < 10 ^ 12"
  shows "0 < averageDealSize (processAccountDataInternal P data)"
  unfolding averageDealSize_valid_average
proof (rule calculateAverage_pos)
  from assms have "parseCurrency (totalSales r)
      \<in> set (filter (\<lambda>v. 0 < v \<and> v < 10 ^ 12) (map (\<lambda>r. parseCurrency (totalSales r)) data))"
    by auto
  then show "filter (\<lambda>v. 0 < v \<and> v < 10 ^ 12) (map (\<lambda>r. parseCurrency (totalSales r)) data) \<noteq> []"
    by (metis empty_iff empty_set)
  show "\<forall>x\<in>set (filter (\<lambda>v. 0 < v \<and> v < 10 ^ 12) (map (\<lambda>r. parseCurrency (totalSales r)) data)). 0 < x"
    by simp
qed

lemma parse_1e12: "parseCurrency ''1000000000000'' = 1000000000000"
  by (simp add: num_defs char_defs roundDouble_numeral)

text \<open>
  C8 at its boundary: one account with the value 1e12, which is positive and passes the
  guard of the loop. The total revenue is 1e12 and the average deal size is 0, since the
  test for the average asks for a magnitude strictly below 1e12.
\<close>

theorem averageDealSize_at_bound:
  "parseCurrency (totalSales (account0 ''A'' ''1000000000000'')) = 10 ^ 12
   \<and> validRow (account0 ''A'' ''1000000000000'')
   \<and> totalRevenue (processAccountDataInternal platform0 [account0 ''A'' ''1000000000000'']) = 10 ^ 12
   \<and> averageDealSize (processAccountDataInternal platform0 [account0 ''A'' ''1000000000000'']) = 0"
  by (simp add: totalRevenue_valid_sum averageDealSize_valid_average validRow_def account0_def
      parse_1e12 calculateAverage_def)

subsection \<open>Rows beyond the bound\<close>

lemma mainRow_invalid: "\<not> validRow row \<Longrightarrow> mainRow P st row = st"
  by (cases st) (simp add: validRow_def Let_def)

lemma invalid_rich: "\<not> validRow (richAccount ''2000000000000'')"
  by (simp add: validRow_def richAccount_def parse_2e12)

lemma rich_main_invalid:
  "foldl (mainRow P) st [richAccount ''2000000000000''] = st"
  by (simp add: mainRow_invalid invalid_rich)

lemma rich_geo:
  "geographicDistribution (processAccountDataInternal P [richAccount ''2000000000000'']) =
     [(''OH'', \<lparr>leads = 1, revenue = 2000000000000\<rparr>)]"
  by (simp add: processAccountDataInternal_def Let_def geoRow_def addLead_first sample_keys
      richAccount_def state_Columbus parse_2e12 split: prod.splits)

lemma rich_traffic_revenue:
  "map (\<lambda>x. (fst x, leads (snd x), revenue (snd x)))
     (trafficSourcePerformance (processAccountDataInternal P [richAccount ''2000000000000''])) =
     [(''Organic Search'', 1, 2000000000000)]"
proof -
  have "totalSales (richAccount ''2000000000000'') = ''2000000000000''"
    by (simp add: richAccount_def)
  then show ?thesis
    by (simp add: processAccountDataInternal_def Let_def trafficSourcePerformanceOf_def trafficRow_def
      addLead_first sample_keys source_rich trafficRates_def parse_2e12 split: prod.splits)
qed

lemma rich_campaign_revenue:
  "campaignPerformance (processAccountDataInternal P [richAccount ''2000000000000'']) =
     [(''Spring'', \<lparr>leads = 1, revenue = 2000000000000\<rparr>)]"
  by (simp add: processAccountDataInternal_def Let_def campaignRow_def addLead_first sample_keys
      orElse_def richAccount_def trim_Spring parse_2e12 split: prod.splits)

lemma rich_landing_revenue:
  "map (\<lambda>x. (fst x, leads (snd x), revenue (snd x)))
     (landingPagePerformance (processAccountDataInternal platform1 [richAccount ''2000000000000''])) =
     [(''/pricing'', 1, 2000000000000)]"
  by (simp add: processAccountDataInternal_def Let_def landingRow_def orElse_def setOwn_first
      sample_keys richAccount_def trim_pricing platform1_def landingRates_def parse_2e12
      split: prod.splits)

lemma rich_months:
  "monthlyTrends (processAccountDataInternal platform1 [richAccount ''2000000000000'']) =
     [\<lparr>month = ''2025-01'', accounts_t = 1, revenue_t = 2000000000000\<rparr>]"
  by (simp add: processAccountDataInternal_def Let_def monthlyTrendsOf_def monthRow_def
      setOwn_first sample_keys richAccount_def platform1_def parse_2e12 jsSort_def sliceLast_def
      split: prod.splits)

text \<open>
  C1 on one account with the value 2e12. The first loop skips it: it counts in
  \<open>totalAccounts\<close>, and the total revenue and the rep, brand and state rollups are
  empty. The later loops do not test the value: the 2e12 are in the revenue of the month,
  of the traffic source, of the state of the geographic distribution, of the campaign and
  of the landing page.
\<close>

theorem invalid_value_in_later_sums:
  "\<bar>parseCurrency (totalSales (richAccount ''2000000000000''))\<bar> > 10 ^ 12
   \<and> totalAccounts (processAccountDataInternal platform1 [richAccount ''2000000000000'']) = 1
   \<and> totalRevenue (processAccountDataInternal platform1 [richAccount ''2000000000000'']) = 0
   \<and> salesByRep (processAccountDataInternal platform1 [richAccount ''2000000000000'']) = []
   \<and> salesByBrand (processAccountDataInternal platform1 [richAccount ''2000000000000'']) = []
   \<and> topStates (processAccountDataInternal platform1 [richAccount ''2000000000000'']) = []
   \<and> monthlyTrends (processAccountDataInternal platform1 [richAccount ''2000000000000'']) =
        [\<lparr>month = ''2025-01'', accounts_t = 1, revenue_t = 2000000000000\<rparr>]
   \<and> map (\<lambda>x. (fst x, leads (snd x), revenue (snd x)))
        (trafficSourcePerformance (processAccountDataInternal platform1 [richAccount ''2000000000000'']))
        = [(''Organic Search'', 1, 2000000000000)]
   \<and> geographicDistribution (processAccountDataInternal platform1 [richAccount ''2000000000000'']) =
        [(''OH'', \<lparr>leads = 1, revenue = 2000000000000\<rparr>)]
   \<and> campaignPerformance (processAccountDataInternal platform1 [richAccount ''2000000000000'']) =
        [(''Spring'', \<lparr>leads = 1, revenue = 2000000000000\<rparr>)]
   \<and> map (\<lambda>x. (fst x, leads (snd x), revenue (snd x)))
        (landingPagePerformance (processAccountDataInternal platform1 [richAccount ''2000000000000'']))
        = [(''/pricing'', 1, 2000000000000)]"
proof -
  have a: "\<bar>parseCurrency (totalSales (richAccount ''2000000000000''))\<bar> > 10 ^ 12"
    by (simp add: richAccount_def parse_2e12)
  have b: "totalAccounts (processAccountDataInternal platform1 [richAccount ''2000000000000'']) = 1"
    "totalRevenue (processAccountDataInternal platform1 [richAccount ''2000000000000'']) = 0"
    "salesByRep (processAccountDataInternal platform1 [richAccount ''2000000000000'']) = []"
    "salesByBrand (processAccountDataInternal platform1 [richAccount ''2000000000000'']) = []"
    "topStates (processAccountDataInternal platform1 [richAccount ''2000000000000'']) = []"
    unfolding processed_main_fields rich_main_invalid by (simp_all add: initialProcessed_def)
  show ?thesis
    using a b rich_months rich_traffic_revenue[of platform1] rich_geo[of platform1]
      rich_campaign_revenue[of platform1] rich_landing_revenue
    by blast
qed

subsection \<open>The ranking\<close>

lemma insortCmp_insort_key:
  "insortCmp (\<lambda>a b. f b - f a) x ys = insort_key (\<lambda>a. - f a) x ys" for f :: "'a \<Rightarrow> real"
  by (induction ys) simp_all

lemma jsSort_sort_key:
  "jsSort (\<lambda>a b. f b - f a) xs = sort_key (\<lambda>a. - f a) xs" for f :: "'a \<Rightarrow> real"
proof -
  have "insortCmp (\<lambda>a b. f b - f a) = insort_key (\<lambda>a. - f a)"
    by (intro ext) (rule insortCmp_insort_key)
  then show ?thesis by (simp add: jsSort_def sort_key_def)
qed

lemma sortedAccountsOf_sort_key:
  "sortedAccountsOf data = sort_key (\<lambda>a. - salesValue a) data"
  unfolding sortedAccountsOf_def salesValue_def by (rule jsSort_sort_key)

lemma sortedAccountsOf_props:
  "mset (sortedAccountsOf data) = mset data"
  "length (sortedAccountsOf data) = length data"
  "set (sortedAccountsOf data) = set data"
  "sorted (map (\<lambda>a. - salesValue a) (sortedAccountsOf data))"
  by (simp_all add: sortedAccountsOf_sort_key)

lemma leastPerformingOf_all_negative:
  assumes "length xs \<ge> 5" "\<forall>a \<in> set xs. salesValue a < 0"
  shows "leastPerformingOf xs = rev (drop (length xs - 5) xs)"
proof -
  from assms(2) have f: "filter (\<lambda>acc. parseCurrency (totalSales acc) < 0) xs = xs"
    by (simp add: salesValue_def)
  with assms(1) show ?thesis
    by (simp add: leastPerformingOf_def sliceLast_def Let_def)
qed

lemma sorted_desc_split:
  assumes "sorted (map (\<lambda>a. - salesValue a) xs)"
  shows "\<forall>a \<in> set (take n xs). \<forall>b \<in> set (drop n xs). salesValue b \<le> salesValue a"
proof -
  from assms have "sorted (map (\<lambda>a. - salesValue a) (take n xs @ drop n xs))" by simp
  then show ?thesis
    unfolding map_append sorted_append by auto
qed

lemma parse_negatives:
  "parseCurrency ''-1'' = -1" "parseCurrency ''-2'' = -2" "parseCurrency ''-3'' = -3"
  "parseCurrency ''-4'' = -4" "parseCurrency ''-5'' = -5" "parseCurrency ''-6'' = -6"
  "parseCurrency ''-7'' = -7"
  by (simp_all add: num_defs char_defs roundDouble_numeral)

lemma salesValue_account0: "salesValue (account0 nm ts) = parseCurrency ts"
  by (simp add: salesValue_def account0_def)

lemma negSeven_values: "map salesValue negSeven = [-3, -1, -7, -2, -6, -4, -5]"
  by (simp add: negSeven_def salesValue_account0 parse_negatives)

lemma negSeven_sorted:
  "sortedAccountsOf negSeven =
     [account0 ''A'' ''-1'', account0 ''B'' ''-2'', account0 ''C'' ''-3'', account0 ''D'' ''-4'',
      account0 ''E'' ''-5'', account0 ''F'' ''-6'', account0 ''G'' ''-7'']"
  by (simp add: sortedAccountsOf_sort_key negSeven_def salesValue_account0 parse_negatives)

lemma negSeven_least:
  "leastPerformingAccounts (processAccountDataInternal P negSeven) =
     [account0 ''G'' ''-7'', account0 ''F'' ''-6'', account0 ''E'' ''-5'', account0 ''D'' ''-4'',
      account0 ''C'' ''-3'']"
proof -
  have "\<forall>a \<in> set (sortedAccountsOf negSeven). salesValue a < 0"
    by (simp add: negSeven_sorted salesValue_account0 parse_negatives)
  moreover have "length (sortedAccountsOf negSeven) \<ge> 5"
    by (simp add: negSeven_sorted)
  ultimately have "leastPerformingOf (sortedAccountsOf negSeven)
      = rev (drop (length (sortedAccountsOf negSeven) - 5) (sortedAccountsOf negSeven))"
    by (simp add: leastPerformingOf_all_negative)
  then show ?thesis
    by (simp add: processed_ranking negSeven_sorted)
qed

text \<open>
  C3, as stated, fails: of seven accounts with the values -1 to -7 the list holds the
  values -7 to -3, the five most negative with the most negative first, and not the five
  closest to 0.
\<close>

theorem leastPerforming_counterexample:
  "length negSeven = 7
   \<and> map salesValue negSeven = [-3, -1, -7, -2, -6, -4, -5]
   \<and> map salesValue (leastPerformingAccounts (processAccountDataInternal platform0 negSeven))
       = [-7, -6, -5, -4, -3]
   \<and> map salesValue (leastPerformingAccounts (processAccountDataInternal platform0 negSeven))
       \<noteq> [-1, -2, -3, -4, -5]"
  by (simp add: negSeven_least negSeven_values salesValue_account0 parse_negatives)
     (simp add: negSeven_def)

text \<open>
  C3, amended: of seven accounts with negative values the list holds five, in ascending
  order of value (the most negative first), and the two accounts that are left out have
  values that are no smaller than any value in the list: the list is the five most
  negative accounts.
\<close>

theorem leastPerforming_most_negative:
  assumes "length data = 7" and "\<forall>a \<in> set data. salesValue a < 0"
  shows "\<exists>others.
           length others = 2
           \<and> mset (others @ leastPerformingAccounts (processAccountDataInternal P data)) = mset data
           \<and> length (leastPerformingAccounts (processAccountDataInternal P data)) = 5
           \<and> sorted (map salesValue (leastPerformingAccounts (processAccountDataInternal P data)))
           \<and> (\<forall>a \<in> set others.
                 \<forall>b \<in> set (leastPerformingAccounts (processAccountDataInternal P data)).
                   salesValue b \<le> salesValue a)"
proof -
  let ?s = "sortedAccountsOf data"
  let ?least = "leastPerformingAccounts (processAccountDataInternal P data)"
  from assms have neg: "\<forall>a \<in> set ?s. salesValue a < 0" and len: "length ?s = 7"
    by (simp_all add: sortedAccountsOf_props)
  then have least: "?least = rev (drop 2 ?s)"
    by (simp add: processed_ranking leastPerformingOf_all_negative)
  have "mset (take 2 ?s @ ?least) = mset (take 2 ?s @ drop 2 ?s)"
    unfolding least by (simp only: mset_append mset_rev)
  also have "\<dots> = mset data"
    unfolding append_take_drop_id by (rule sortedAccountsOf_props(1))
  finally have m: "mset (take 2 ?s @ ?least) = mset data" .
  have "sorted (map (\<lambda>a. - salesValue a) (drop 2 ?s))"
    using sortedAccountsOf_props(4)[of data] by (simp add: sorted_wrt_drop drop_map[symmetric])
  then have "sorted (rev (map (\<lambda>a. - (- salesValue a)) (drop 2 ?s)))"
    by (simp add: sorted_wrt_rev sorted_map sorted_wrt_map rev_map)
  then have s: "sorted (map salesValue ?least)"
    by (simp add: least rev_map)
  have o: "\<forall>a \<in> set (take 2 ?s). \<forall>b \<in> set ?least. salesValue b \<le> salesValue a"
    using sorted_desc_split[OF sortedAccountsOf_props(4), of 2 data] by (simp add: least)
  have "length (take 2 ?s) = 2" "length ?least = 5"
    using len by (simp_all add: least)
  with m s o show ?thesis by blast
qed

text \<open>The amended statement on the seven accounts above.\<close>

theorem leastPerforming_most_negative_witness:
  "length negSeven = 7
   \<and> map salesValue negSeven = [-3, -1, -7, -2, -6, -4, -5]
   \<and> length (leastPerformingAccounts (processAccountDataInternal platform0 negSeven)) = 5
   \<and> sorted (map salesValue (leastPerformingAccounts (processAccountDataInternal platform0 negSeven)))"
proof -
  have l: "length negSeven = 7" by (simp add: negSeven_def)
  have v: "map salesValue negSeven = [-3, -1, -7, -2, -6, -4, -5]" by (rule negSeven_values)
  have n: "\<forall>a \<in> set negSeven. salesValue a < 0"
    by (simp add: negSeven_def salesValue_account0 parse_negatives)
  from leastPerforming_most_negative[OF l n, of platform0] l v show ?thesis by blast
qed

subsection \<open>Brand extraction\<close>

lemma brandLoop_plain_token:
  "b \<notin> set GENERIC_SUFFIXES \<Longrightarrow>
   brandLoop nm l (b # bs) = (if includesStr l (toLowerCase b) then Some b else brandLoop nm l bs)"
  by (simp add: includesStr_def split: option.splits)

lemma brandLoop_plain_tokens:
  assumes "\<forall>b \<in> set bs. b \<notin> set GENERIC_SUFFIXES"
    and "\<exists>b \<in> set bs. includesStr l (toLowerCase b)"
  shows "brandLoop nm l (bs @ rest) = List.find (\<lambda>b. includesStr l (toLowerCase b)) bs"
  using assms
proof (induction bs)
  case Nil
  then show ?case by simp
next
  case (Cons b bs)
  then show ?case
    by (cases "includesStr l (toLowerCase b)")
       (simp_all add: brandLoop_plain_token del: brandLoop.simps)
qed

lemma known_brands_split:
  "KNOWN_BRANDS_HS =
     [''Hospeco'', ''Indoff'', ''Triad'', ''Impact'', ''Legacy'', ''Acme'', ''Supply'']
     @ [''Corp'', ''LLC'', ''Inc'']"
  by (simp add: KNOWN_BRANDS_HS_def)

lemma plain_tokens:
  "\<forall>b \<in> set [''Hospeco'', ''Indoff'', ''Triad'', ''Impact'', ''Legacy'', ''Acme'', ''Supply''].
     b \<notin> set GENERIC_SUFFIXES"
  by (simp add: GENERIC_SUFFIXES_def)

lemma extractBrand_via_find:
  assumes k: "KNOWN_BRANDS_HS = bs @ rest"
    and g: "\<forall>b \<in> set bs. b \<notin> set GENERIC_SUFFIXES"
    and i: "\<exists>b \<in> set bs. includesStr (toLowerCase nm) (toLowerCase b)"
  shows "Some (extractBrandFromAccountNameHS nm) =
           List.find (\<lambda>b. includesStr (toLowerCase nm) (toLowerCase b)) bs"
proof -
  from i obtain b where
    f: "List.find (\<lambda>b. includesStr (toLowerCase nm) (toLowerCase b)) bs = Some b"
    by (cases "List.find (\<lambda>b. includesStr (toLowerCase nm) (toLowerCase b)) bs")
       (auto simp: find_None_iff)
  have "brandLoop nm (toLowerCase nm) KNOWN_BRANDS_HS = Some b"
    unfolding k brandLoop_plain_tokens[OF g i] by (rule f)
  then show ?thesis
    unfolding extractBrandFromAccountNameHS_def f by simp
qed

lemmas extractBrand_plain_token = extractBrand_via_find[OF known_brands_split plain_tokens]

lemma brand_examples:
  "extractBrandFromAccountNameHS ''ACME Corp'' = ''Acme''"
  "extractBrandFromAccountNameHS ''acme corp'' = ''Acme''"
  "extractBrandFromAccountNameHS ''foo corp'' = ''foo''"
  "toLowerCase ''Foo Corp'' = ''foo corp''"
  "toLowerCase ''foo corp'' = ''foo corp''"
  "toLowerCase ''ACME Corp'' = ''acme corp''"
  "toLowerCase ''acme corp'' = ''acme corp''"
  "toLowerCase ''Acme'' = ''acme''"
  "includesStr ''acme corp'' ''acme''"
  by code_simp+

text \<open>
  C7, as stated, fails: the names \<^verbatim>\<open>Foo Corp\<close> and \<^verbatim>\<open>foo corp\<close> differ in casing
  only, and their labels are \<^verbatim>\<open>Foo\<close> and \<^verbatim>\<open>foo\<close>.
\<close>

theorem brand_casing_counterexample:
  "toLowerCase ''Foo Corp'' = toLowerCase ''foo corp''
   \<and> extractBrandFromAccountNameHS ''Foo Corp'' = ''Foo''
   \<and> extractBrandFromAccountNameHS ''foo corp'' = ''foo''
   \<and> extractBrandFromAccountNameHS ''Foo Corp'' \<noteq> extractBrandFromAccountNameHS ''foo corp''"
  by (simp add: brand_examples brand_Foo_Corp)

text \<open>
  C7, amended: the search for a known brand is case-insensitive. When one of the brands
  Hospeco, Indoff, Triad, Impact, Legacy, Acme, Supply occurs in a name, in any casing,
  the name and every casing variant of it get the same label, and it is the first of
  those brands that occurs; so \<^verbatim>\<open>ACME Corp\<close> and \<^verbatim>\<open>acme corp\<close> both get
  \<^verbatim>\<open>Acme\<close>.
\<close>

theorem brand_known_token_any_casing:
  "(toLowerCase n = toLowerCase m
    \<and> (\<exists>b \<in> set [''Hospeco'', ''Indoff'', ''Triad'', ''Impact'', ''Legacy'', ''Acme'', ''Supply''].
          includesStr (toLowerCase n) (toLowerCase b))
    \<longrightarrow> extractBrandFromAccountNameHS n = extractBrandFromAccountNameHS m
        \<and> Some (extractBrandFromAccountNameHS n) =
            List.find (\<lambda>b. includesStr (toLowerCase n) (toLowerCase b))
              [''Hospeco'', ''Indoff'', ''Triad'', ''Impact'', ''Legacy'', ''Acme'', ''Supply''])
   \<and> extractBrandFromAccountNameHS ''ACME Corp'' = ''Acme''
   \<and> extractBrandFromAccountNameHS ''acme corp'' = ''Acme''"
proof (intro conjI impI)
  assume a: "toLowerCase n = toLowerCase m
    \<and> (\<exists>b \<in> set [''Hospeco'', ''Indoff'', ''Triad'', ''Impact'', ''Legacy'', ''Acme'', ''Supply''].
          includesStr (toLowerCase n) (toLowerCase b))"
  from a have e: "toLowerCase n = toLowerCase m" by (rule conjunct1)
  from a have "\<exists>b \<in> set [''Hospeco'', ''Indoff'', ''Triad'', ''Impact'', ''Legacy'', ''Acme'', ''Supply''].
          includesStr (toLowerCase n) (toLowerCase b)"
    by (rule conjunct2)
  then have b: "\<exists>b \<in> set [''Hospeco'', ''Indoff'', ''Triad'', ''Impact'', ''Legacy'', ''Acme'', ''Supply''].
          includesStr (toLowerCase m) (toLowerCase b)"
    unfolding e .
  from a show "Some (extractBrandFromAccountNameHS n) =
            List.find (\<lambda>b. includesStr (toLowerCase n) (toLowerCase b))
              [''Hospeco'', ''Indoff'', ''Triad'', ''Impact'', ''Legacy'', ''Acme'', ''Supply'']"
    by (intro extractBrand_plain_token) (rule conjunct2)
  with extractBrand_plain_token[OF b]
  have "Some (extractBrandFromAccountNameHS n) = Some (extractBrandFromAccountNameHS m)"
    unfolding e by (rule ssubst)
  then show "extractBrandFromAccountNameHS n = extractBrandFromAccountNameHS m" by simp
qed (rule brand_examples)+

text \<open>The amended statement on the two names of the specification.\<close>

theorem brand_known_token_any_casing_witness:
  "toLowerCase ''ACME Corp'' = toLowerCase ''acme corp''
   \<and> includesStr (toLowerCase ''ACME Corp'') (toLowerCase ''Acme'')
   \<and> extractBrandFromAccountNameHS ''ACME Corp'' = extractBrandFromAccountNameHS ''acme corp''"
proof -
  have h: "toLowerCase ''ACME Corp'' = toLowerCase ''acme corp''
    \<and> (\<exists>b \<in> set [''Hospeco'', ''Indoff'', ''Triad'', ''Impact'', ''Legacy'', ''Acme'', ''Supply''].
          includesStr (toLowerCase ''ACME Corp'') (toLowerCase b))"
    by (simp add: brand_examples)
  from brand_known_token_any_casing[of "''ACME Corp''" "''acme corp''", THEN conjunct1, THEN mp, OF h]
  show ?thesis by (simp add: brand_examples)
qed

subsection \<open>The lead health score\<close>

lemma recordedVisits_eq:
  "(case numberOfVisits account of None \<Rightarrow> Fin 0 | Some s \<Rightarrow> if s = [] then Fin 0 else toNumber s)
     = recordedVisits account"
  by (simp add: recordedVisits_def truthy_def split: option.splits)

lemma stage_literals:
  "''salesqualifiedlead'' \<noteq> ''customer''" "''marketingqualifiedlead'' \<noteq> ''customer''"
  "''salesqualifiedlead'' \<noteq> ''marketingqualifiedlead''"
  by simp_all

lemma stageBonus_code_order:
  "(if stage = ''salesqualifiedlead'' then 25
    else if stage = ''marketingqualifiedlead'' then 15
    else if stage = ''customer'' then 30 else 0) = stageBonus stage"
  unfolding stageBonus_def using stage_literals by auto

text \<open>The shape of the computation, with its tests left open.\<close>

lemma score_shape:
  "(let score0 = (50::int);
        source = src;
        score1 = (if A source then score0 + 15
                  else if B source then score0 + 10
                  else if C source then score0 + 20
                  else score0);
        visits = vis;
        score2 = (if D visits then score1 + 15
                  else if E visits then score1 + 10
                  else score1);
        stage = stg;
        score3 = (if F stage then score2 + 25
                  else if G stage then score2 + 15
                  else if H stage then score2 + 30
                  else score2)
    in max 0 (min 100 score3)) =
   max 0 (min 100 (50 + (if A src then 15 else if B src then 10 else if C src then 20 else 0)
                   + (if D vis then 15 else if E vis then 10 else 0)
                   + (if F stg then 25 else if G stg then 15 else if H stg then 30 else 0)))"
  by (simp add: Let_def)

lemma calculateLeadHealthScore_sum:
  "calculateLeadHealthScore account =
     max 0 (min 100 (50 + codeSourceBonus (orElse (analyticsSource account) ''Unknown'')
                     + visitsBonus (recordedVisits account) + stageBonus (stageOf account)))"
  unfolding calculateLeadHealthScore_def recordedVisits_eq stageOf_def[symmetric]
    codeSourceBonus_def visitsBonus_def stageBonus_code_order[symmetric]
  by (rule score_shape
      [where A = "\<lambda>s. includesStr s ''Organic Search''" and B = "\<lambda>s. includesStr s ''Paid Search''"
         and C = "\<lambda>s. includesStr s ''Referral''" and D = "\<lambda>v. gt v 5" and E = "\<lambda>v. gt v 2"
         and F = "\<lambda>s. s = ''salesqualifiedlead''" and G = "\<lambda>s. s = ''marketingqualifiedlead''"
         and H = "\<lambda>s. s = ''customer''"])

lemma clampScore_max_min: "clampScore x = max 0 (min 100 x)"
  by (simp add: clampScore_def)

lemma mixed_source:
  "includesStr ''Referral, Organic Search'' ''Referral''"
  "includesStr ''Referral, Organic Search'' ''Organic Search''"
  "\<not> includesStr ''Unknown'' ''Referral''"
  "\<not> includesStr ''Unknown'' ''Organic Search''"
  "\<not> includesStr ''Unknown'' ''Paid Search''"
  by code_simp+

lemma plain_account_bonus:
  "visitsBonus (recordedVisits ((account0 nm ts)\<lparr>analyticsSource := x\<rparr>)) = 0"
  "stageBonus (stageOf ((account0 nm ts)\<lparr>analyticsSource := x\<rparr>)) = 0"
  "visitsBonus (recordedVisits (account0 nm ts)) = 0"
  "stageBonus (stageOf (account0 nm ts)) = 0"
  "stageOf (account0 nm ts) = []"
  "recordedVisits (account0 nm ts) = Fin 0"
  "orElse (analyticsSource (account0 nm ts)) ''Unknown'' = ''Unknown''"
  by (simp_all add: account0_def recordedVisits_def truthy_def stageOf_def visitsBonus_def
      stageBonus_def gt_def orElse_def)

text \<open>
  C4, as stated, fails on the priority of the sources: for a source that names a
  referral and an organic search the code adds 15 and the reference of the specification
  adds 20.
\<close>

theorem leadHealthScore_priority_counterexample:
  "orElse (analyticsSource mixedSourceAccount) ''Unknown'' = ''Referral, Organic Search''
   \<and> calculateLeadHealthScore mixedSourceAccount = 65
   \<and> specLeadHealthScore mixedSourceAccount = 70"
proof -
  have src: "orElse (analyticsSource mixedSourceAccount) ''Unknown'' = ''Referral, Organic Search''"
    by (simp add: mixedSourceAccount_def orElse_def)
  have cb: "codeSourceBonus ''Referral, Organic Search'' = 15"
    and sb: "specSourceBonus ''Referral, Organic Search'' = 20"
    by (simp_all only: codeSourceBonus_def specSourceBonus_def mixed_source if_True)
  have rest: "visitsBonus (recordedVisits mixedSourceAccount) = 0"
    "stageBonus (stageOf mixedSourceAccount) = 0"
    by (simp_all add: plain_account_bonus mixedSourceAccount_def)
  show ?thesis
    by (simp add: calculateLeadHealthScore_sum specLeadHealthScore_def src cb sb rest clampScore_def)
qed

text \<open>
  C4, amended: the score is the reference with the priority Organic Search, Paid Search,
  Referral for the source: base 50, one source bonus, one bonus for the visits, one for
  the stage, clamped. It is in the range from 0 to 100, and it is 50 for an account with
  no matching source, at most 2 visits and none of the three stages.
\<close>

theorem leadHealthScore_reference:
  "calculateLeadHealthScore account = amendedLeadHealthScore account
   \<and> 0 \<le> calculateLeadHealthScore account
   \<and> calculateLeadHealthScore account \<le> 100
   \<and> (\<not> includesStr (orElse (analyticsSource account) ''Unknown'') ''Organic Search''
        \<and> \<not> includesStr (orElse (analyticsSource account) ''Unknown'') ''Paid Search''
        \<and> \<not> includesStr (orElse (analyticsSource account) ''Unknown'') ''Referral''
        \<and> \<not> gt (recordedVisits account) 2
        \<and> stageOf account \<noteq> ''customer''
        \<and> stageOf account \<noteq> ''salesqualifiedlead''
        \<and> stageOf account \<noteq> ''marketingqualifiedlead''
      \<longrightarrow> calculateLeadHealthScore account = 50)"
proof (intro conjI impI)
  show "calculateLeadHealthScore account = amendedLeadHealthScore account"
    by (simp only: calculateLeadHealthScore_sum amendedLeadHealthScore_def clampScore_max_min)
  show "0 \<le> calculateLeadHealthScore account" "calculateLeadHealthScore account \<le> 100"
    by (simp_all add: calculateLeadHealthScore_sum)
next
  assume a: "\<not> includesStr (orElse (analyticsSource account) ''Unknown'') ''Organic Search''
        \<and> \<not> includesStr (orElse (analyticsSource account) ''Unknown'') ''Paid Search''
        \<and> \<not> includesStr (orElse (analyticsSource account) ''Unknown'') ''Referral''
        \<and> \<not> gt (recordedVisits account) 2
        \<and> stageOf account \<noteq> ''customer''
        \<and> stageOf account \<noteq> ''salesqualifiedlead''
        \<and> stageOf account \<noteq> ''marketingqualifiedlead''"
  then have "codeSourceBonus (orElse (analyticsSource account) ''Unknown'') = 0"
    by (simp only: codeSourceBonus_def if_False)
  moreover from a have "\<not> gt (recordedVisits account) 5"
    by (cases "recordedVisits account") (auto simp: gt_def)
  with a have "visitsBonus (recordedVisits account) = 0"
    by (simp only: visitsBonus_def if_False)
  moreover from a have "stageBonus (stageOf account) = 0"
    by (simp only: stageBonus_def if_False)
  ultimately show "calculateLeadHealthScore account = 50"
    by (simp add: calculateLeadHealthScore_sum)
qed

text \<open>The amended statement on an account without attribution data.\<close>

theorem leadHealthScore_reference_witness:
  "\<not> includesStr (orElse (analyticsSource (account0 ''A'' ''0'')) ''Unknown'') ''Organic Search''
   \<and> \<not> gt (recordedVisits (account0 ''A'' ''0'')) 2
   \<and> stageOf (account0 ''A'' ''0'') = []
   \<and> calculateLeadHealthScore (account0 ''A'' ''0'') = 50"
proof -
  have h: "\<not> includesStr (orElse (analyticsSource (account0 ''A'' ''0'')) ''Unknown'') ''Organic Search''
        \<and> \<not> includesStr (orElse (analyticsSource (account0 ''A'' ''0'')) ''Unknown'') ''Paid Search''
        \<and> \<not> includesStr (orElse (analyticsSource (account0 ''A'' ''0'')) ''Unknown'') ''Referral''
        \<and> \<not> gt (recordedVisits (account0 ''A'' ''0'')) 2
        \<and> stageOf (account0 ''A'' ''0'') \<noteq> ''customer''
        \<and> stageOf (account0 ''A'' ''0'') \<noteq> ''salesqualifiedlead''
        \<and> stageOf (account0 ''A'' ''0'') \<noteq> ''marketingqualifiedlead''"
    by (simp add: plain_account_bonus mixed_source gt_def)
  have s: "stageOf (account0 ''A'' ''0'') = []"
    by (rule plain_account_bonus)
  from leadHealthScore_reference[of "account0 ''A'' ''0''", THEN conjunct2, THEN conjunct2,
      THEN conjunct2, THEN mp, OF h] h s
  show ?thesis by blast
qed

subsection \<open>The estimated value of a lead\<close>

lemma transformContact_totalSales:
  "totalSales (transformContact R companiesMap ownersMap i c) = leadValue (contactStage c)"
  by (simp add: transformContact_def contactStage_def Let_def)

lemma parse_lead_values:
  "parseCurrency ''25000'' = 25000" "parseCurrency ''10000'' = 10000"
  "parseCurrency ''5000'' = 5000" "parseCurrency ''2000'' = 2000"
  "parseCurrency ''1000'' = 1000"
  by (simp_all add: num_defs char_defs roundDouble_numeral)

text \<open>The \<^verbatim>\<open>switch\<close> and the rank of the code, with their tests left open.\<close>

lemma switch_shape:
  "parseCurrency
     (let st = x
      in if a st then ''25000'' else if b st then ''10000'' else if c st then ''5000''
         else if d st then ''2000'' else if e st then ''500'' else ''1000'')
   = rankValue
       (let st = x
        in if a st then 0 else if b st then 1 else if c st then 2
           else if d st then 3 else if e st then 5 else 4)"
  by (simp add: Let_def rankValue_def parse_lead_values parse_500)

lemma leadValue_rankValue: "parseCurrency (leadValue stage) = rankValue (codeStageRank stage)"
  unfolding leadValue_def codeStageRank_def
  by (rule switch_shape
      [where a = "\<lambda>st. st = ''customer''"
         and b = "\<lambda>st. st = ''salesqualifiedlead'' \<or> st = ''sql''"
         and c = "\<lambda>st. st = ''marketingqualifiedlead'' \<or> st = ''mql''"
         and d = "\<lambda>st. st = ''lead''" and e = "\<lambda>st. st = ''subscriber''"])

lemma codeStageRank_le: "codeStageRank stage \<le> 5"
  by (simp add: codeStageRank_def Let_def)

lemma rankValue_antimono: "r1 < r2 \<Longrightarrow> r2 \<le> 5 \<Longrightarrow> rankValue r2 < rankValue r1"
  by (simp add: rankValue_def)

lemma stage_examples:
  "specStageRank ''subscriber'' = 4" "specStageRank ''unknown'' = 5"
  "codeStageRank ''subscriber'' = 5" "codeStageRank ''unknown'' = 4"
  "codeStageRank ''customer'' = 0" "codeStageRank ''SQL'' = 1"
  by code_simp+

lemma contactStage_contact0: "stage \<noteq> [] \<Longrightarrow> contactStage (contact0 stage) = stage"
  by (simp add: contactStage_def contact0_def stageProperty_def orElse_def)

text \<open>
  C5, as stated, fails at the end of the order: a subscriber is before an unknown stage
  in the order of the specification, and its estimate is 500 against 1000.
\<close>

theorem leadValue_order_counterexample:
  "specStageRank (contactStage (contact0 ''subscriber''))
     < specStageRank (contactStage (contact0 ''unknown''))
   \<and> salesValue (transformContact runtime0 nothingFetched nothingFetched 0 (contact0 ''subscriber''))
       = 500
   \<and> salesValue (transformContact runtime0 nothingFetched nothingFetched 0 (contact0 ''unknown''))
       = 1000"
  by (simp add: salesValue_def transformContact_totalSales contactStage_contact0
      leadValue_rankValue stage_examples rankValue_def)

text \<open>
  C5, amended: the estimates are 25000 for a customer, 10000 for salesqualifiedlead or
  sql, 5000 for marketingqualifiedlead or mql, 2000 for a lead, 1000 for any other or no
  stage and 500 for a subscriber, whatever the casing of the stage. So of two contacts
  the one whose stage is earlier in the order customer, sales qualified, marketing
  qualified, lead, unknown, subscriber gets the strictly larger Total Sales, whatever
  else the contacts hold.
\<close>

theorem leadValue_strictly_descending:
  "salesValue (transformContact R companiesMap ownersMap i c1)
     = rankValue (codeStageRank (contactStage c1))
   \<and> (codeStageRank (contactStage c1) < codeStageRank (contactStage c2)
        \<longrightarrow> salesValue (transformContact R companiesMap ownersMap i c1)
              > salesValue (transformContact R' companiesMap' ownersMap' j c2))"
proof (intro conjI impI)
  show "salesValue (transformContact R companiesMap ownersMap i c1)
     = rankValue (codeStageRank (contactStage c1))"
    by (simp add: salesValue_def transformContact_totalSales leadValue_rankValue)
  assume "codeStageRank (contactStage c1) < codeStageRank (contactStage c2)"
  then have "rankValue (codeStageRank (contactStage c2)) < rankValue (codeStageRank (contactStage c1))"
    by (rule rankValue_antimono) (rule codeStageRank_le)
  then show "salesValue (transformContact R companiesMap ownersMap i c1)
              > salesValue (transformContact R' companiesMap' ownersMap' j c2)"
    by (simp add: salesValue_def transformContact_totalSales leadValue_rankValue)
qed

text \<open>The amended statement on a customer and a contact with the stage SQL.\<close>

theorem leadValue_strictly_descending_witness:
  "codeStageRank (contactStage (contact0 ''customer'')) < codeStageRank (contactStage (contact0 ''SQL''))
   \<and> salesValue (transformContact runtime0 nothingFetched nothingFetched 0 (contact0 ''customer''))
       = 25000
   \<and> salesValue (transformContact runtime0 nothingFetched nothingFetched 0 (contact0 ''customer''))
       > salesValue (transformContact runtime0 nothingFetched nothingFetched 1 (contact0 ''SQL''))"
proof -
  have h: "codeStageRank (contactStage (contact0 ''customer''))
             < codeStageRank (contactStage (contact0 ''SQL''))"
    by (simp add: contactStage_contact0 stage_examples)
  note T = leadValue_strictly_descending[of runtime0 nothingFetched nothingFetched 0
      "contact0 ''customer''" "contact0 ''SQL''" runtime0 nothingFetched nothingFetched 1]
  from T[THEN conjunct2, THEN mp, OF h] T[THEN conjunct1] h
  show ?thesis
    by (simp add: contactStage_contact0 stage_examples rankValue_def)
qed

subsection \<open>The fetch and its fallback\<close>

lemma paginate_pos:
  "0 < n \<Longrightarrow>
   paginate ev api n after (allContacts, calls) =
     (case api after of
        Inl e \<Rightarrow> ((allContacts, calls @ [ev after]), Some e)
      | Inr p \<Rightarrow>
          (if truthy (nextAfter p) \<noteq> None \<and> n - 1 > 0
           then paginate ev api (n - 1) (nextAfter p) (allContacts @ results p, calls @ [ev after])
           else ((allContacts @ results p, calls @ [ev after]), None)))"
  by (cases n) (auto split: sum.splits)

text \<open>A pagination that may ask for a page asks with the cursor it was given, first.\<close>

lemma paginate_calls:
  "0 < n \<Longrightarrow>
   \<exists>more. snd (fst (paginate ev api n after (allContacts, calls))) = calls @ ev after # more"
proof (induction n arbitrary: after allContacts calls)
  case 0
  then show ?case by simp
next
  case (Suc n)
  show ?case
  proof (cases "api after")
    case (Inl e)
    then show ?thesis by simp
  next
    case (Inr p)
    show ?thesis
    proof (cases "truthy (nextAfter p) \<noteq> None \<and> n > 0")
      case True
      then have "0 < n" by simp
      from Suc.IH[OF this, of "nextAfter p" "allContacts @ results p" "calls @ [ev after]"]
      obtain more where
        "snd (fst (paginate ev api n (nextAfter p) (allContacts @ results p, calls @ [ev after])))
           = (calls @ [ev after]) @ ev (nextAfter p) # more"
        by blast
      with Inr True show ?thesis by simp
    next
      case False
      with Inr show ?thesis by auto
    qed
  qed
qed

lemma paginate_first:
  assumes "0 < n"
  shows "snd (fst (paginate ev api n after (allContacts, calls))) \<noteq> []"
    and "hd (snd (fst (paginate ev api n after (allContacts, calls)))) = hd (calls @ [ev after])"
proof -
  from paginate_calls[OF assms, of ev api after allContacts calls] obtain more where
    m: "snd (fst (paginate ev api n after (allContacts, calls))) = calls @ ev after # more"
    by blast
  show "snd (fst (paginate ev api n after (allContacts, calls))) \<noteq> []"
    unfolding m by simp
  show "hd (snd (fst (paginate ev api n after (allContacts, calls)))) = hd (calls @ [ev after])"
    unfolding m by (cases calls) simp_all
qed

lemma fetchContacts_first:
  "snd (fst (fetchContacts R W startDate)) \<noteq> []
   \<and> hd (snd (fst (fetchContacts R W startDate))) \<in> {Search None, GetPage None}"
proof (cases "case startDate of None \<Rightarrow> False | Some sd \<Rightarrow> fullYear R sd \<ge> 2025")
  case False
  then have "fetchContacts R W startDate = paginate GetPage (getPage W) 500 None ([], [])"
    by (simp add: fetchContacts_def)
  then show ?thesis
    using paginate_first[of 500 GetPage "getPage W" None "[]" "[]"] by simp
next
  case True
  then obtain sd where sd: "startDate = Some sd" by (cases startDate) auto
  obtain st err where p: "paginate Search (doSearch W sd) 500 None ([], []) = (st, err)"
    by (cases "paginate Search (doSearch W sd) 500 None ([], [])") auto
  from paginate_first[of 500 Search "doSearch W sd" None "[]" "[]"] p
  have s: "snd st \<noteq> []" "hd (snd st) = Search None"
    by simp_all
  show ?thesis
  proof (cases err)
    case None
    with True sd p s show ?thesis by (simp add: fetchContacts_def)
  next
    case (Some e)
    obtain a c where st: "st = (a, c)" by (cases st) auto
    from paginate_first[of 200 GetPage "getPage W" None a c] s st
    have "snd (fst (paginate GetPage (getPage W) 200 None st)) \<noteq> []"
      "hd (snd (fst (paginate GetPage (getPage W) 200 None st))) = Search None"
      by (simp_all add: hd_append)
    with True sd p Some show ?thesis by (simp add: fetchContacts_def)
  qed
qed


lemma fetch_calls_prefix:
  assumes "truthy (map_option trim (apiKey W)) \<noteq> None"
  shows "\<exists>rest. fst (fetchAndProcessHubSpotData P R W startDate endDate)
           = snd (fst (fetchContacts R W startDate)) @ rest"
proof -
  from assms obtain k where k: "truthy (map_option trim (apiKey W)) = Some k" by auto
  obtain allContacts calls err where
    f: "fetchContacts R W startDate = ((allContacts, calls), err)"
    by (cases "fetchContacts R W startDate") auto
  show ?thesis
    by (cases err) (simp_all add: fetchAndProcessHubSpotData_def k f Let_def)
qed

text \<open>
  C6: without a credential the function throws and makes no call, so it reads no file.
  With a credential its first call is a request for the first page of contacts, by the
  search or by the listing. When the fetch of the contacts ends without an error and no
  contact is a qualified lead, the file is read after those calls and the result is what
  \<^verbatim>\<open>processCSVData\<close> gives: the snapshot of the accounts of the file, or \<^verbatim>\<open>null\<close>
  when \<^verbatim>\<open>processCSVData\<close> throws.
\<close>

theorem fetch_fallback_policy:
  "(truthy (map_option trim (apiKey W)) = None
      \<longrightarrow> (\<exists>msg. fetchAndProcessHubSpotData P R W startDate endDate = ([], Throws msg)))
   \<and> (truthy (map_option trim (apiKey W)) \<noteq> None
      \<longrightarrow> fst (fetchAndProcessHubSpotData P R W startDate endDate) \<noteq> []
          \<and> hd (fst (fetchAndProcessHubSpotData P R W startDate endDate))
              \<in> {Search None, GetPage None})
   \<and> (truthy (map_option trim (apiKey W)) \<noteq> None
        \<and> fetchContacts R W startDate = ((allContacts, calls), None)
        \<and> filter isQualified allContacts = []
      \<longrightarrow> fetchAndProcessHubSpotData P R W startDate endDate =
            (calls @ [ReadCSV],
             (case csvAccounts W startDate endDate of
                Inl e \<Rightarrow> Returns None
              | Inr accts \<Rightarrow> Returns (Some (processAccountDataInternal P accts)))))"
proof (intro conjI impI)
  assume "truthy (map_option trim (apiKey W)) = None"
  then show "\<exists>msg. fetchAndProcessHubSpotData P R W startDate endDate = ([], Throws msg)"
    by (simp add: fetchAndProcessHubSpotData_def)
next
  assume a: "truthy (map_option trim (apiKey W)) \<noteq> None"
  from fetch_calls_prefix[OF a, of P R startDate endDate] obtain rest where
    r: "fst (fetchAndProcessHubSpotData P R W startDate endDate)
          = snd (fst (fetchContacts R W startDate)) @ rest"
    by blast
  from fetchContacts_first[of R W startDate]
  show "fst (fetchAndProcessHubSpotData P R W startDate endDate) \<noteq> []"
    and "hd (fst (fetchAndProcessHubSpotData P R W startDate endDate)) \<in> {Search None, GetPage None}"
    unfolding r by (simp_all add: hd_append)
next
  assume a: "truthy (map_option trim (apiKey W)) \<noteq> None
        \<and> fetchContacts R W startDate = ((allContacts, calls), None)
        \<and> filter isQualified allContacts = []"
  then obtain k where k: "truthy (map_option trim (apiKey W)) = Some k" by auto
  from a have f: "fetchContacts R W startDate = ((allContacts, calls), None)"
    and q: "filter isQualified allContacts = []"
    by simp_all
  show "fetchAndProcessHubSpotData P R W startDate endDate =
            (calls @ [ReadCSV],
             (case csvAccounts W startDate endDate of
                Inl e \<Rightarrow> Returns None
              | Inr accts \<Rightarrow> Returns (Some (processAccountDataInternal P accts))))"
    by (simp add: fetchAndProcessHubSpotData_def k f q processCSVData_def split: sum.splits)
qed

lemma trim_key: "trim ''pat-key'' = ''pat-key''"
  by code_simp

lemma lead_not_qualified: "\<not> isQualified (contact0 ''lead'')"
  by code_simp

lemma fetch_one_lead:
  "fetchContacts runtime0 worldOneLead None = (([contact0 ''lead''], [GetPage None]), None)"
  by (simp add: fetchContacts_def paginate_pos worldOneLead_def onePage_def truthy_def)

text \<open>
  The policy in the two worlds: without the credential the call throws and nothing is
  fetched or read; with it and one contact that is a plain lead, the first page is asked
  for, the file is read, and the snapshot is the one of the file.
\<close>

theorem fetch_fallback_policy_witness:
  "truthy (map_option trim (apiKey worldNoKey)) = None
   \<and> fst (fetchAndProcessHubSpotData platform0 runtime0 worldNoKey None None) = []
   \<and> truthy (map_option trim (apiKey worldOneLead)) \<noteq> None
   \<and> fetchAndProcessHubSpotData platform0 runtime0 worldOneLead None None =
       ([GetPage None, ReadCSV], Returns (Some (processAccountDataInternal platform0 csvSample)))"
proof -
  have n: "truthy (map_option trim (apiKey worldNoKey)) = None"
    by (simp add: worldNoKey_def truthy_def)
  have k: "truthy (map_option trim (apiKey worldOneLead)) \<noteq> None"
    by (simp add: worldOneLead_def truthy_def trim_key)
  have h: "truthy (map_option trim (apiKey worldOneLead)) \<noteq> None
        \<and> fetchContacts runtime0 worldOneLead None = (([contact0 ''lead''], [GetPage None]), None)
        \<and> filter isQualified [contact0 ''lead''] = []"
    using k by (simp add: fetch_one_lead lead_not_qualified)
  have c: "csvAccounts worldOneLead None None = Inr csvSample"
    by (simp add: worldOneLead_def csvFile_def)
  note T1 = fetch_fallback_policy[of worldNoKey platform0 runtime0 None None]
  note T2 = fetch_fallback_policy[of worldOneLead platform0 runtime0 None None
      "[contact0 ''lead'']" "[GetPage None]"]
  from T1[THEN conjunct1, THEN mp, OF n]
  have "fst (fetchAndProcessHubSpotData platform0 runtime0 worldNoKey None None) = []"
    by auto
  moreover from T2[THEN conjunct2, THEN conjunct2, THEN mp, OF h]
  have "fetchAndProcessHubSpotData platform0 runtime0 worldOneLead None None =
       ([GetPage None, ReadCSV], Returns (Some (processAccountDataInternal platform0 csvSample)))"
    by (simp add: c)
  ultimately show ?thesis using n k by blast
qed

end
